theory Spec2Isabelle
  imports Main "HOL-Library.Sublist" "HOL-Library.AList"
begin

section \<open>JavaScript strings\<close>

text \<open>
  A JavaScript string is a sequence of UTF-16 code units. The model uses \<^typ>\<open>string\<close>:
  a \<^typ>\<open>char\<close> stands for one code unit below \<open>0x100\<close> (ASCII and Latin-1), which
  covers header names, header values, model identifiers, keys and URLs as they occur in
  practice. Strings with code units from \<open>0x100\<close> on are outside the model.
\<close>

abbreviation LF :: char where "LF \<equiv> CHR 0x0A"
abbreviation CR :: char where "CR \<equiv> CHR 0x0D"
abbreviation DQUOTE :: char where "DQUOTE \<equiv> CHR 0x22"
abbreviation BACKSLASH :: char where "BACKSLASH \<equiv> CHR 0x5C"

text \<open>
  The characters that \<open>String.prototype.trim\<close> strips and that the regular expression
  class \<open>\s\<close> matches (WhiteSpace and LineTerminator of ECMAScript), below \<open>0x100\<close>:
  TAB, LF, VT, FF, CR, SPACE and NBSP.
\<close>

definition isWhiteSpace :: "char \<Rightarrow> bool" where
  "isWhiteSpace c = (c \<in> set [CHR 0x09, CHR 0x0A, CHR 0x0B, CHR 0x0C, CHR 0x0D, CHR 0x20, CHR 0xA0])"

definition trim :: "string \<Rightarrow> string" where
  "trim s = rev (dropWhile isWhiteSpace (rev (dropWhile isWhiteSpace s)))"

text \<open>\<open>String.prototype.toLowerCase\<close> on code units below \<open>0x100\<close>: A-Z and the
  Latin-1 capitals \<open>0xC0\<close>-\<open>0xDE\<close> (but not the multiplication sign \<open>0xD7\<close>) map to
  the code unit 32 higher; every other code unit is kept.\<close>

definition upperChars :: string where
  "upperChars = ''ABCDEFGHIJKLMNOPQRSTUVWXYZ'' @
     [CHR 0xC0, CHR 0xC1, CHR 0xC2, CHR 0xC3, CHR 0xC4, CHR 0xC5, CHR 0xC6, CHR 0xC7,
      CHR 0xC8, CHR 0xC9, CHR 0xCA, CHR 0xCB, CHR 0xCC, CHR 0xCD, CHR 0xCE, CHR 0xCF,
      CHR 0xD0, CHR 0xD1, CHR 0xD2, CHR 0xD3, CHR 0xD4, CHR 0xD5, CHR 0xD6,
      CHR 0xD8, CHR 0xD9, CHR 0xDA, CHR 0xDB, CHR 0xDC, CHR 0xDD, CHR 0xDE]"

definition lowerChars :: string where
  "lowerChars = ''abcdefghijklmnopqrstuvwxyz'' @
     [CHR 0xE0, CHR 0xE1, CHR 0xE2, CHR 0xE3, CHR 0xE4, CHR 0xE5, CHR 0xE6, CHR 0xE7,
      CHR 0xE8, CHR 0xE9, CHR 0xEA, CHR 0xEB, CHR 0xEC, CHR 0xED, CHR 0xEE, CHR 0xEF,
      CHR 0xF0, CHR 0xF1, CHR 0xF2, CHR 0xF3, CHR 0xF4, CHR 0xF5, CHR 0xF6,
      CHR 0xF8, CHR 0xF9, CHR 0xFA, CHR 0xFB, CHR 0xFC, CHR 0xFD, CHR 0xFE]"

definition lowerChar :: "char \<Rightarrow> char" where
  "lowerChar c = (case map_of (zip upperChars lowerChars) c of Some l \<Rightarrow> l | None \<Rightarrow> c)"

definition toLowerCase :: "string \<Rightarrow> string" where
  "toLowerCase s = map lowerChar s"

text \<open>\<open>s.indexOf(c)\<close> for a one-character needle: the first position, or \<open>-1\<close>.\<close>

fun indexOf :: "string \<Rightarrow> char \<Rightarrow> int" where
  "indexOf [] c = - 1"
| "indexOf (x # xs) c =
     (if x = c then 0 else (let i = indexOf xs c in if i = - 1 then - 1 else i + 1))"

text \<open>\<open>s.slice(b, e)\<close> and \<open>s.slice(b)\<close>; a negative index counts from the end.\<close>

definition slice :: "string \<Rightarrow> int \<Rightarrow> int \<Rightarrow> string" where
  "slice s b e =
     (let n = int (length s);
          from = (if b < 0 then max (n + b) 0 else min b n);
          to = (if e < 0 then max (n + e) 0 else min e n)
      in take (nat (to - from)) (drop (nat from) s))"

definition sliceFrom :: "string \<Rightarrow> int \<Rightarrow> string" where
  "sliceFrom s b = slice s b (int (length s))"

definition startsWith :: "string \<Rightarrow> string \<Rightarrow> bool" where
  "startsWith s p = prefix p s"

definition endsWith :: "string \<Rightarrow> string \<Rightarrow> bool" where
  "endsWith s p = suffix p s"

text \<open>\<open>s.split(/\r?\n/)\<close>: a line ends at LF or at CR LF; a CR alone ends nothing.\<close>

fun consFirst :: "char \<Rightarrow> string list \<Rightarrow> string list" where
  "consFirst c [] = [[c]]"
| "consFirst c (l # ls) = (c # l) # ls"

fun splitLines :: "string \<Rightarrow> string list" where
  "splitLines [] = [[]]"
| "splitLines [c] = (if c = LF then [[], []] else [[c]])"
| "splitLines (c # d # cs) =
     (if c = LF then [] # splitLines (d # cs)
      else if c = CR \<and> d = LF then [] # splitLines cs
      else consFirst c (splitLines (d # cs)))"

text \<open>\<open>s.split(/[\n,]/)\<close>, with the separator class as a predicate.\<close>

fun splitOn :: "(char \<Rightarrow> bool) \<Rightarrow> string \<Rightarrow> string list" where
  "splitOn sep [] = [[]]"
| "splitOn sep (c # cs) =
     (if sep c then [] # splitOn sep cs else consFirst c (splitOn sep cs))"

text \<open>\<open>xs.join(sep)\<close>.\<close>

fun join :: "string \<Rightarrow> string list \<Rightarrow> string" where
  "join sep [] = []"
| "join sep [x] = x"
| "join sep (x # y # ys) = x @ sep @ join sep (y # ys)"

text \<open>\<open>n.toString()\<close> for a non-negative integer: its decimal digits.\<close>

definition digitChar :: "nat \<Rightarrow> char" where
  "digitChar d = ''0123456789'' ! d"

function toStringNat :: "nat \<Rightarrow> string" where
  "toStringNat n = (if n < 10 then [digitChar n] else toStringNat (n div 10) @ [digitChar (n mod 10)])"
  by pat_completeness auto
termination
  by (relation "measure id") auto

declare toStringNat.simps [simp del]

definition isDigit :: "char \<Rightarrow> bool" where
  "isDigit c = (c \<in> set ''0123456789'')"

text \<open>The value of a digit is its position among the digits (also for hexadecimal ones).\<close>

definition positionIn :: "string \<Rightarrow> char \<Rightarrow> nat" where
  "positionIn ds c = length (takeWhile (\<lambda>d. d \<noteq> c) ds)"

definition decimalValue :: "string \<Rightarrow> int" where
  "decimalValue s = foldl (\<lambda>acc c. 10 * acc + int (positionIn ''0123456789'' c)) 0 s"


section \<open>JavaScript containers\<close>

text \<open>
  A \<open>Map\<close> iterates in insertion order, and \<open>map.set(k, v)\<close> on a key that is
  present replaces the value where the key stands: an association list with distinct
  keys and \<^const>\<open>AList.update\<close>.
\<close>

type_synonym ('k, 'v) jsMap = "('k \<times> 'v) list"

definition mapSet :: "'k \<Rightarrow> 'v \<Rightarrow> ('k, 'v) jsMap \<Rightarrow> ('k, 'v) jsMap" where
  "mapSet k v m = AList.update k v m"

text \<open>A \<open>Set\<close> of strings iterates in insertion order; \<open>add\<close> of a member does nothing.\<close>

definition setAdd :: "'a \<Rightarrow> 'a list \<Rightarrow> 'a list" where
  "setAdd x s = (if x \<in> set s then s else s @ [x])"

definition newSet :: "'a list \<Rightarrow> 'a list" where
  "newSet xs = foldl (\<lambda>s x. setAdd x s) [] xs"

text \<open>
  An ordinary object, as far as its own enumerable string-keyed data properties go, is
  the list of its properties in creation order. \<open>CreateDataProperty\<close> (what an
  object literal, a spread and \<open>JSON.parse\<close> do) overwrites in place or appends.
  An assignment \<open>o[k] = v\<close> does the same, except for the key \<open>__proto__\<close>: that one is
  the accessor of \<open>Object.prototype\<close>, whose setter ignores a string and creates nothing.
  The own keys are enumerated (\<open>Object.entries\<close>, spread) with the array indices first,
  in ascending numeric order, then the other keys in creation order. An array index is
  the canonical decimal form of an integer up to \<open>2^32 - 2\<close>.
\<close>

type_synonym 'v jsObject = "(string \<times> 'v) list"

definition createDataProperty :: "string \<Rightarrow> 'v \<Rightarrow> 'v jsObject \<Rightarrow> 'v jsObject" where
  "createDataProperty k v obj = AList.update k v obj"

definition objSet :: "string \<Rightarrow> 'v \<Rightarrow> 'v jsObject \<Rightarrow> 'v jsObject" where
  "objSet k v obj = (if k = ''__proto__'' then obj else createDataProperty k v obj)"

definition isArrayIndex :: "string \<Rightarrow> bool" where
  "isArrayIndex k =
     (k \<noteq> [] \<and> list_all isDigit k \<and> (k = ''0'' \<or> hd k \<noteq> CHR ''0'') \<and>
      decimalValue k \<le> 4294967294)"

definition ownEntries :: "'v jsObject \<Rightarrow> (string \<times> 'v) list" where
  "ownEntries obj =
     sort_key (\<lambda>p. decimalValue (fst p)) (filter (\<lambda>p. isArrayIndex (fst p)) obj) @
     filter (\<lambda>p. \<not> isArrayIndex (fst p)) obj"

definition spreadInto :: "'v jsObject \<Rightarrow> 'v jsObject \<Rightarrow> 'v jsObject" where
  "spreadInto target src = foldl (\<lambda>obj p. createDataProperty (fst p) (snd p) obj) target (ownEntries src)"

section \<open>\<open>JSON.parse\<close> and \<open>Object.entries\<close>\<close>

text \<open>
  \<open>JSON.parse\<close> after the JSON grammar of ECMAScript: a tokenizer and a pushdown parser
  over the tokens. \<open>None\<close> is the \<open>SyntaxError\<close>. The text of a number is kept unread (the
  callers only ask whether a value is a string). A \<open>\uXXXX\<close> escape yields the code unit it
  names; one that names a code unit from \<open>0x100\<close> on is outside the model, which keeps
  the low byte of it where \<open>JSON.parse\<close> keeps the code unit.
\<close>

datatype json =
    JNull
  | JBool bool
  | JNumber string
  | JString string
  | JArray "json list"
  | JObject "(string \<times> json) list"

datatype token =
    TLBrace | TRBrace | TLBracket | TRBracket | TColon | TComma
  | TString string | TNumber string | TTrue | TFalse | TNull

definition isJsonWhiteSpace :: "char \<Rightarrow> bool" where
  "isJsonWhiteSpace c = (c \<in> set [CHR 0x09, CHR 0x0A, CHR 0x0D, CHR 0x20])"

definition unescape :: "char \<Rightarrow> char option" where
  "unescape e =
     map_of [(DQUOTE, DQUOTE), (BACKSLASH, BACKSLASH), (CHR ''/'', CHR ''/''),
             (CHR ''b'', CHR 0x08), (CHR ''f'', CHR 0x0C), (CHR ''n'', LF),
             (CHR ''r'', CR), (CHR ''t'', CHR 0x09)] e"

definition isHexDigit :: "char \<Rightarrow> bool" where
  "isHexDigit c = (c \<in> set ''0123456789abcdefABCDEF'')"

definition hexValue :: "string \<Rightarrow> nat" where
  "hexValue s = foldl (\<lambda>acc c. 16 * acc + positionIn ''0123456789abcdef'' (lowerChar c)) 0 s"

text \<open>The characters of a string literal after its opening quote: the string they
  denote, and how many characters the literal takes up to and with its closing quote.\<close>

function lexString :: "string \<Rightarrow> (string \<times> nat) option" where
  "lexString [] = None"
| "lexString (c # cs) =
     (if c = DQUOTE then Some ([], 1)
      else if c = BACKSLASH then
        (case cs of
           [] \<Rightarrow> None
         | e # r \<Rightarrow>
             if e = CHR ''u'' then
               (if 4 \<le> length r \<and> list_all isHexDigit (take 4 r)
                then (case lexString (drop 4 r) of
                        None \<Rightarrow> None
                      | Some (s, k) \<Rightarrow> Some (char_of (hexValue (take 4 r)) # s, k + 6))
                else None)
             else
               (case unescape e of
                  None \<Rightarrow> None
                | Some x \<Rightarrow>
                    (case lexString r of
                       None \<Rightarrow> None
                     | Some (s, k) \<Rightarrow> Some (x # s, k + 2))))
      else if (of_char c :: nat) < 32 then None
      else (case lexString cs of
              None \<Rightarrow> None
            | Some (s, k) \<Rightarrow> Some (c # s, k + 1)))"
  by pat_completeness auto
termination
  by (relation "measure length") auto

declare lexString.simps [simp del]

definition isNumberChar :: "char \<Rightarrow> bool" where
  "isNumberChar c = (c \<in> set ''0123456789+-.eE'')"

definition isExponent :: "string \<Rightarrow> bool" where
  "isExponent r =
     (case r of
        [] \<Rightarrow> True
      | c # r' \<Rightarrow>
          (c = CHR ''e'' \<or> c = CHR ''E'') \<and>
          (let ds = (case r' of
                       [] \<Rightarrow> []
                     | sg # t \<Rightarrow> if sg = CHR ''+'' \<or> sg = CHR ''-'' then t else r')
           in ds \<noteq> [] \<and> list_all isDigit ds))"

definition isFraction :: "string \<Rightarrow> bool" where
  "isFraction r =
     (case r of
        [] \<Rightarrow> True
      | c # r' \<Rightarrow>
          if c = CHR ''.'' then takeWhile isDigit r' \<noteq> [] \<and> isExponent (dropWhile isDigit r')
          else isExponent r)"

definition isJsonNumber :: "string \<Rightarrow> bool" where
  "isJsonNumber s =
     (case (case s of [] \<Rightarrow> [] | c # r \<Rightarrow> if c = CHR ''-'' then r else s) of
        [] \<Rightarrow> False
      | d # r \<Rightarrow>
          if d = CHR ''0'' then isFraction r
          else isDigit d \<and> isFraction (dropWhile isDigit r))"

function tokenize :: "string \<Rightarrow> token list option" where
  "tokenize [] = Some []"
| "tokenize (c # cs) =
     (if isJsonWhiteSpace c then tokenize cs
      else if c = CHR ''{'' then map_option ((#) TLBrace) (tokenize cs)
      else if c = CHR ''}'' then map_option ((#) TRBrace) (tokenize cs)
      else if c = CHR ''['' then map_option ((#) TLBracket) (tokenize cs)
      else if c = CHR '']'' then map_option ((#) TRBracket) (tokenize cs)
      else if c = CHR '':'' then map_option ((#) TColon) (tokenize cs)
      else if c = CHR '','' then map_option ((#) TComma) (tokenize cs)
      else if c = DQUOTE then
        (case lexString cs of
           None \<Rightarrow> None
         | Some (s, k) \<Rightarrow> map_option ((#) (TString s)) (tokenize (drop k cs)))
      else if c = CHR ''-'' \<or> isDigit c then
        (if isJsonNumber (c # takeWhile isNumberChar cs)
         then map_option ((#) (TNumber (c # takeWhile isNumberChar cs)))
                (tokenize (dropWhile isNumberChar cs))
         else None)
      else if prefix ''true'' (c # cs) then map_option ((#) TTrue) (tokenize (drop 3 cs))
      else if prefix ''false'' (c # cs) then map_option ((#) TFalse) (tokenize (drop 4 cs))
      else if prefix ''null'' (c # cs) then map_option ((#) TNull) (tokenize (drop 3 cs))
      else None)"
  by pat_completeness auto
termination
  by (relation "measure length") (auto simp: le_imp_less_Suc length_dropWhile_le)

declare tokenize.simps [simp del]

text \<open>The parser: what may come next, and the stack of the containers that are open.\<close>

datatype frame =
    ArrayFrame "json list"
  | ObjectFrame "(string \<times> json) list"
  | MemberFrame "(string \<times> json) list" string

datatype expect = Value | ValueOrClose | KeyOrClose | Key | ColonNext | Separator | Finished json

fun deliver :: "json \<Rightarrow> frame list \<Rightarrow> (expect \<times> frame list) option" where
  "deliver v [] = Some (Finished v, [])"
| "deliver v (ArrayFrame vs # st) = Some (Separator, ArrayFrame (vs @ [v]) # st)"
| "deliver v (MemberFrame ms k # st) = Some (Separator, ObjectFrame (ms @ [(k, v)]) # st)"
| "deliver v (ObjectFrame ms # st) = None"

fun startValue :: "token \<Rightarrow> frame list \<Rightarrow> (expect \<times> frame list) option" where
  "startValue (TString s) st = deliver (JString s) st"
| "startValue (TNumber n) st = deliver (JNumber n) st"
| "startValue TTrue st = deliver (JBool True) st"
| "startValue TFalse st = deliver (JBool False) st"
| "startValue TNull st = deliver JNull st"
| "startValue TLBrace st = Some (KeyOrClose, ObjectFrame [] # st)"
| "startValue TLBracket st = Some (ValueOrClose, ArrayFrame [] # st)"
| "startValue _ st = None"

fun pushKey :: "token \<Rightarrow> frame list \<Rightarrow> (expect \<times> frame list) option" where
  "pushKey (TString k) (ObjectFrame ms # st) = Some (ColonNext, MemberFrame ms k # st)"
| "pushKey _ _ = None"

fun parseStep :: "expect \<Rightarrow> frame list \<Rightarrow> token \<Rightarrow> (expect \<times> frame list) option" where
  "parseStep Value st t = startValue t st"
| "parseStep ValueOrClose (ArrayFrame vs # st) TRBracket = deliver (JArray vs) st"
| "parseStep ValueOrClose st t = startValue t st"
| "parseStep KeyOrClose (ObjectFrame ms # st) TRBrace = deliver (JObject ms) st"
| "parseStep KeyOrClose st t = pushKey t st"
| "parseStep Key st t = pushKey t st"
| "parseStep ColonNext st TColon = Some (Value, st)"
| "parseStep ColonNext st _ = None"
| "parseStep Separator (ArrayFrame vs # st) TComma = Some (Value, ArrayFrame vs # st)"
| "parseStep Separator (ArrayFrame vs # st) TRBracket = deliver (JArray vs) st"
| "parseStep Separator (ObjectFrame ms # st) TComma = Some (Key, ObjectFrame ms # st)"
| "parseStep Separator (ObjectFrame ms # st) TRBrace = deliver (JObject ms) st"
| "parseStep Separator st t = None"
| "parseStep (Finished v) st t = None"

fun parseTokens :: "expect \<Rightarrow> frame list \<Rightarrow> token list \<Rightarrow> json option" where
  "parseTokens (Finished v) st [] = Some v"
| "parseTokens e st [] = None"
| "parseTokens e st (t # ts) =
     (case parseStep e st t of
        None \<Rightarrow> None
      | Some (e', st') \<Rightarrow> parseTokens e' st' ts)"

definition JSON_parse :: "string \<Rightarrow> json option" where
  "JSON_parse s = (case tokenize s of None \<Rightarrow> None | Some ts \<Rightarrow> parseTokens Value [] ts)"

text \<open>
  \<open>Object.entries(v)\<close> for a value that \<open>JSON.parse\<close> returned. An object gives its own
  properties (a repeated key of the text keeps its first place and its last value); an
  array and a string give their indices with the element or the one-character string
  there; a number and a boolean give nothing; \<open>null\<close> throws a \<open>TypeError\<close> (\<open>None\<close>).
\<close>

definition indexed :: "'a list \<Rightarrow> (string \<times> 'a) list" where
  "indexed xs = zip (map toStringNat [0..<length xs]) xs"

fun Object_entries :: "json \<Rightarrow> (string \<times> json) list option" where
  "Object_entries JNull = None"
| "Object_entries (JBool b) = Some []"
| "Object_entries (JNumber n) = Some []"
| "Object_entries (JString s) = Some (indexed (map (\<lambda>c. JString [c]) s))"
| "Object_entries (JArray vs) = Some (indexed vs)"
| "Object_entries (JObject ms) =
     Some (ownEntries (foldl (\<lambda>obj p. createDataProperty (fst p) (snd p) obj) [] ms))"


section \<open>The orchestrator's header directives (\<open>openrouter.ts\<close>)\<close>

record HeaderEntry =
  hname :: string
  hvalue :: string

type_synonym headerMap = "(string, HeaderEntry) jsMap"

text \<open>The body of the \<open>try\<close> block that both parsers share: \<open>JSON.parse\<close>, then
  \<open>Object.entries\<close> of what it returned. \<open>None\<close> when either throws.\<close>

definition tryJsonEntries :: "string \<Rightarrow> (string \<times> json) list option" where
  "tryJsonEntries s = (case JSON_parse s of None \<Rightarrow> None | Some v \<Rightarrow> Object_entries v)"

definition jsonHeader :: "headerMap \<Rightarrow> string \<times> json \<Rightarrow> headerMap" where
  "jsonHeader m p =
     (case snd p of
        JString s \<Rightarrow>
          if length (trim (fst p)) > 0
          then mapSet (toLowerCase (fst p)) \<lparr>hname = fst p, hvalue = trim s\<rparr> m
          else m
      | _ \<Rightarrow> m)"

definition lineHeader :: "headerMap \<Rightarrow> string \<Rightarrow> headerMap" where
  "lineHeader m line =
     (let separatorIndex = indexOf line (CHR '':'')
      in if separatorIndex = - 1 then m
         else (let nm = trim (slice line 0 separatorIndex);
                   v = trim (sliceFrom line (separatorIndex + 1))
               in if length nm = 0 \<or> length v = 0 then m
                  else mapSet (toLowerCase nm) \<lparr>hname = nm, hvalue = v\<rparr> m))"

definition parseLines :: "string \<Rightarrow> headerMap" where
  "parseLines trimmedRaw =
     foldl lineHeader [] (filter (\<lambda>line. length line > 0) (map trim (splitLines trimmedRaw)))"

definition parseHeaderLines :: "string option \<Rightarrow> headerMap" where
  "parseHeaderLines raw =
     (case raw of
        None \<Rightarrow> []
      | Some r \<Rightarrow>
          if r = [] then []
          else (let trimmedRaw = trim r
                in if length trimmedRaw = 0 then []
                   else (case (if startsWith trimmedRaw ''{'' \<and> endsWith trimmedRaw ''}''
                               then tryJsonEntries trimmedRaw else None) of
                           Some entries \<Rightarrow> foldl jsonHeader [] entries
                         | None \<Rightarrow> parseLines trimmedRaw)))"

definition setHeader :: "headerMap \<Rightarrow> string \<Rightarrow> string \<Rightarrow> headerMap" where
  "setHeader headers nm v = mapSet (toLowerCase nm) \<lparr>hname = nm, hvalue = v\<rparr> headers"

definition serializeHeaders :: "headerMap \<Rightarrow> string" where
  "serializeHeaders headers = join [LF] (map (\<lambda>p. hname (snd p) @ '': '' @ hvalue (snd p)) headers)"

text \<open>\<open>args.match(/--model\s+([^\s]+)/)\<close>: the leftmost \<open>--model\<close> that is followed by
  white space and then by a character that is none; the group is the longest run of
  such characters.\<close>

fun matchModel :: "string \<Rightarrow> string option" where
  "matchModel [] = None"
| "matchModel (c # cs) =
     (if prefix ''--model'' (c # cs) \<and>
         dropWhile isWhiteSpace (drop 7 (c # cs)) \<noteq> drop 7 (c # cs) \<and>
         dropWhile isWhiteSpace (drop 7 (c # cs)) \<noteq> []
      then Some (takeWhile (\<lambda>x. \<not> isWhiteSpace x) (dropWhile isWhiteSpace (drop 7 (c # cs))))
      else matchModel cs)"

definition extractModelFromClaudeArgs :: "string option \<Rightarrow> string option" where
  "extractModelFromClaudeArgs args =
     (case args of None \<Rightarrow> None | Some a \<Rightarrow> if a = [] then None else matchModel a)"

definition parseAdditionalModels :: "string option \<Rightarrow> string list" where
  "parseAdditionalModels raw =
     (case raw of
        None \<Rightarrow> []
      | Some r \<Rightarrow>
          if r = [] then []
          else filter (\<lambda>v. length v > 0) (map trim (splitOn (\<lambda>c. c = LF \<or> c = CHR '','') r)))"


section \<open>Effects\<close>

text \<open>
  What the program does to the outside is a list of events in the order of the calls,
  and what the outside answers is read from a \<open>world\<close>: the outcome of the n-th
  \<open>listen\<close>, of \<open>mkdtemp\<close>, of \<open>Math.random().toString(36)\<close>, of \<open>writeFile\<close>, of the
  \<open>pip\<close> child process and of the n-th \<open>fetch\<close>. A computation is the events it
  performed with the error it threw (\<open>Inl\<close>) or the result it returned (\<open>Inr\<close>).
  Every call to the outside is taken to settle: a \<open>listen\<close> ends in \<open>listening\<close> or in
  \<open>error\<close>, a \<open>fetch\<close> in a response or in an error. The handler of the proxy process's
  \<open>exit\<close> event only logs and is left out, and so is what the handlers that
  \<open>registerCleanup\<close> installs do when they run.
\<close>

datatype error =
    Error string       \<comment> \<open>\<open>new Error(message)\<close> of this program\<close>
  | SystemError string \<comment> \<open>an error object that the runtime handed over, by name\<close>

datatype event =
    Listen                  \<comment> \<open>\<open>createServer()\<close>, \<open>server.listen(0, "127.0.0.1")\<close>\<close>
  | CloseServer             \<comment> \<open>\<open>server.close()\<close>\<close>
  | SetTimeout nat          \<comment> \<open>\<open>setTimeout(tryListen, ms)\<close>\<close>
  | Mkdtemp string          \<comment> \<open>\<open>mkdtemp(prefix)\<close>\<close>
  | WriteFile string string \<comment> \<open>\<open>writeFile(path, content, "utf8")\<close>\<close>
  | Spawn string "string list" "string option" "(string \<times> string) list"
                            \<comment> \<open>\<open>spawn(command, args)\<close> with \<open>cwd\<close> and the variables added to the environment\<close>
  | Fetch string            \<comment> \<open>\<open>fetch(url)\<close>\<close>
  | Delay nat               \<comment> \<open>\<open>await delay(ms)\<close>\<close>
  | Kill string             \<comment> \<open>\<open>proxyProcess.kill(signal)\<close>\<close>
  | Warn string             \<comment> \<open>\<open>console.warn(message)\<close>\<close>
  | ProcessOnce string      \<comment> \<open>\<open>process.once(name, handler)\<close>\<close>

datatype address = AddressInfo nat | PipeName string | NoAddress

datatype listenOutcome = Listening address | ListenError string

datatype installOutcome = ChildError string | ChildExit "nat option"

datatype fetchOutcome = Response nat | NetworkError string

record world =
  listenOutcome :: "nat \<Rightarrow> listenOutcome"
  tmpdir :: string
  mkdtempOutcome :: "error + string"
  randomBase36 :: string
  writeFileOutcome :: "error + unit"
  installOutcome :: installOutcome
  health :: "nat \<Rightarrow> fetchOutcome"

type_synonym 'a io = "event list \<times> (error + 'a)"

definition ioReturn :: "'a \<Rightarrow> 'a io" where
  "ioReturn x = ([], Inr x)"

definition ioThrow :: "error \<Rightarrow> 'a io" where
  "ioThrow e = ([], Inl e)"

definition perform :: "event \<Rightarrow> error + 'a \<Rightarrow> 'a io" where
  "perform ev outcome = ([ev], outcome)"

definition after :: "event list \<Rightarrow> 'a io \<Rightarrow> 'a io" where
  "after evs m = (evs @ fst m, snd m)"

definition ioBind :: "'a io \<Rightarrow> ('a \<Rightarrow> 'b io) \<Rightarrow> 'b io" where
  "ioBind m f = (case snd m of Inl e \<Rightarrow> (fst m, Inl e) | Inr x \<Rightarrow> after (fst m) (f x))"

section \<open>The proxy supervisor (\<open>openrouter-proxy\<close>)\<close>

record ProxyHandle =
  baseUrl :: string
  masterKey :: string
  stop :: "event list"

definition DEFAULT_MODELS :: "string list" where
  "DEFAULT_MODELS =
     [''anthropic/claude-sonnet-4'',
      ''anthropic/claude-3.5-sonnet'',
      ''anthropic/claude-3.5-haiku'',
      ''anthropic/claude-3.5-haiku-20241022'',
      ''anthropic/claude-3.5-sonnet-20241022'',
      ''anthropic/claude-3-opus-20240229'']"

definition installArgs :: "string list" where
  "installArgs = [''-m'', ''pip'', ''install'', ''--quiet'', ''litellm[proxy]==1.44.14'']"

definition showExitCode :: "nat option \<Rightarrow> string" where
  "showExitCode code = (case code of None \<Rightarrow> ''null'' | Some n \<Rightarrow> toStringNat n)"

definition installProxyDependency :: "world \<Rightarrow> unit io" where
  "installProxyDependency w =
     perform (Spawn ''python3'' installArgs None [])
       (case installOutcome w of
          ChildError err \<Rightarrow> Inl (SystemError err)
        | ChildExit code \<Rightarrow>
            if code = Some 0 then Inr ()
            else Inl (Error (''Failed to install litellm proxy dependencies (exit code '' @
                             showExitCode code @ '')'')))"

text \<open>\<open>tryListen\<close> of \<open>getAvailablePort\<close>. The counter \<open>attempts\<close> is the number of binds
  that failed so far, so the bind under way is the one numbered \<open>attempts\<close>.\<close>

function tryListen :: "world \<Rightarrow> nat \<Rightarrow> nat io" where
  "tryListen w attempts =
     (case listenOutcome w attempts of
        Listening addr \<Rightarrow>
          after [Listen, CloseServer]
            (case addr of
               AddressInfo port \<Rightarrow>
                 if port \<noteq> 0 then ioReturn port
                 else ioThrow (Error ''Failed to determine proxy port'')
             | _ \<Rightarrow> ioThrow (Error ''Failed to determine proxy port''))
      | ListenError err \<Rightarrow>
          if attempts + 1 > 5 then after [Listen, CloseServer] (ioThrow (SystemError err))
          else after [Listen, CloseServer, SetTimeout 100] (tryListen w (attempts + 1)))"
  by pat_completeness auto
termination
  by (relation "measure (\<lambda>(w, attempts). 6 - attempts)") auto

declare tryListen.simps [simp del]

definition getAvailablePort :: "world \<Rightarrow> nat io" where
  "getAvailablePort w = tryListen w 0"

text \<open>The function \<open>parseHeaderLines\<close> of the supervisor: it returns a plain object
  from names to values, and it hands every non-empty input to \<open>JSON.parse\<close>.\<close>

definition jsonHeader_proxy :: "string jsObject \<Rightarrow> string \<times> json \<Rightarrow> string jsObject" where
  "jsonHeader_proxy entries p =
     (case snd p of
        JString s \<Rightarrow>
          if length (trim (fst p)) > 0 then objSet (trim (fst p)) (trim s) entries else entries
      | _ \<Rightarrow> entries)"

definition lineHeader_proxy :: "string jsObject \<Rightarrow> string \<Rightarrow> string jsObject" where
  "lineHeader_proxy headers rawLine =
     (let line = trim rawLine
      in if line = [] then headers
         else (let idx = indexOf line (CHR '':'')
               in if idx = - 1 then headers
                  else (let nm = trim (slice line 0 idx);
                            v = trim (sliceFrom line (idx + 1))
                        in if nm = [] \<or> v = [] then headers else objSet nm v headers)))"

definition parseHeaderLines_proxy :: "string option \<Rightarrow> string jsObject" where
  "parseHeaderLines_proxy raw =
     (case raw of
        None \<Rightarrow> []
      | Some r \<Rightarrow>
          if r = [] then []
          else (let trimmed = trim r
                in if length trimmed = 0 then []
                   else (case tryJsonEntries trimmed of
                           Some parsed \<Rightarrow> foldl jsonHeader_proxy [] parsed
                         | None \<Rightarrow> foldl lineHeader_proxy [] (splitLines trimmed))))"

definition maxAttempts :: nat where
  "maxAttempts = 30"

definition responseOk :: "nat \<Rightarrow> bool" where
  "responseOk status = (200 \<le> status \<and> status \<le> 299)"

text \<open>The loop of \<open>waitForProxy\<close>, from the attempt \<open>attempt\<close> on.\<close>

function waitLoop :: "world \<Rightarrow> string \<Rightarrow> nat \<Rightarrow> unit io" where
  "waitLoop w url attempt =
     (if attempt < maxAttempts
      then (case health w attempt of
              Response status \<Rightarrow>
                if responseOk status then perform (Fetch url) (Inr ())
                else after [Fetch url, Delay 200] (waitLoop w url (attempt + 1))
            | NetworkError err \<Rightarrow> after [Fetch url, Delay 200] (waitLoop w url (attempt + 1)))
      else ioThrow (Error ''Timed out waiting for OpenRouter proxy to become ready''))"
  by pat_completeness auto
termination
  by (relation "measure (\<lambda>(w, url, attempt). maxAttempts - attempt)") auto

declare waitLoop.simps [simp del]

definition waitForProxy :: "world \<Rightarrow> nat \<Rightarrow> unit io" where
  "waitForProxy w port = waitLoop w (''http://127.0.0.1:'' @ toStringNat port @ ''/health'') 0"

text \<open>
  The world answers every \<open>fetch\<close>, so in it every request settles. The code awaits
  \<open>fetch\<close> and sets no timeout on the request: while a request stays pending, the probe
  waits on it. \<open>waitLoopOn\<close> is the same loop over requests that may stay pending: the
  request of an attempt settles with an outcome or never does (\<open>None\<close>), and the probe
  that never returns is the value \<open>None\<close>.
\<close>

function waitLoopOn :: "(nat \<Rightarrow> fetchOutcome option) \<Rightarrow> string \<Rightarrow> nat \<Rightarrow> unit io option" where
  "waitLoopOn fetches url attempt =
     (if attempt < maxAttempts
      then (case fetches attempt of
              None \<Rightarrow> None
            | Some (Response status) \<Rightarrow>
                if responseOk status then Some (perform (Fetch url) (Inr ()))
                else map_option (after [Fetch url, Delay 200])
                       (waitLoopOn fetches url (attempt + 1))
            | Some (NetworkError err) \<Rightarrow>
                map_option (after [Fetch url, Delay 200]) (waitLoopOn fetches url (attempt + 1)))
      else Some (ioThrow (Error ''Timed out waiting for OpenRouter proxy to become ready'')))"
  by pat_completeness auto
termination
  by (relation "measure (\<lambda>(fetches, url, attempt). maxAttempts - attempt)") auto

declare waitLoopOn.simps [simp del]

definition waitForProxyOn :: "(nat \<Rightarrow> fetchOutcome option) \<Rightarrow> nat \<Rightarrow> unit io option" where
  "waitForProxyOn fetches port =
     waitLoopOn fetches (''http://127.0.0.1:'' @ toStringNat port @ ''/health'') 0"

record OpenRouterProxyOptions =
  apiKey :: string
  upstreamBaseUrl :: string
  siteUrl :: "string option"
  appTitle :: "string option"
  extraHeaders :: "string option"
  preferredModel :: "string option"
  additionalModels :: "string list option"

type_synonym env = "string \<rightharpoonup> string"

text \<open>\<open>x?.trim() || d\<close>: the trimmed string unless it is absent or empty.\<close>

definition trimmedOr :: "string option \<Rightarrow> string \<Rightarrow> string" where
  "trimmedOr x d = (case x of None \<Rightarrow> d | Some s \<Rightarrow> if trim s = [] then d else trim s)"

definition headerEntries :: "OpenRouterProxyOptions \<Rightarrow> string jsObject" where
  "headerEntries options =
     spreadInto
       (createDataProperty ''X-Title'' (trimmedOr (appTitle options) ''Claude Code OpenRouter'')
         (createDataProperty ''HTTP-Referer''
            (trimmedOr (siteUrl options) ''https://github.com/anthropics'') []))
       (parseHeaderLines_proxy (extraHeaders options))"

definition allModels :: "OpenRouterProxyOptions \<Rightarrow> string list" where
  "allModels options =
     foldl (\<lambda>s model. setAdd model s)
       (case preferredModel options of
          None \<Rightarrow> newSet DEFAULT_MODELS
        | Some m \<Rightarrow> if m = [] then newSet DEFAULT_MODELS else setAdd m (newSet DEFAULT_MODELS))
       (filter (\<lambda>model. length model > 0)
          (map trim (case additionalModels options of None \<Rightarrow> [] | Some ms \<Rightarrow> ms)))"

text \<open>\<open>value.replace(/"/g, '\"')\<close>: every double quote of the value is replaced by the
  string that the literal \<open>'\"'\<close> denotes. In a string literal \<open>\"\<close> is the escape sequence
  of the double quote itself, so that string is the one character \<open>"\<close>.\<close>

definition replaceAll :: "char \<Rightarrow> string \<Rightarrow> string \<Rightarrow> string" where
  "replaceAll c replacement s = concat (map (\<lambda>x. if x = c then replacement else [x]) s)"

definition headerLine :: "string \<times> string \<Rightarrow> string" where
  "headerLine p =
     ''        '' @ fst p @ '': '' @ [DQUOTE] @ replaceAll DQUOTE [DQUOTE] (snd p) @ [DQUOTE]"

definition modelYaml :: "OpenRouterProxyOptions \<Rightarrow> string \<Rightarrow> string" where
  "modelYaml options model =
     (let headerEntriesArray = ownEntries (headerEntries options);
          headerYaml = join [LF] (map headerLine headerEntriesArray);
          extraHeadersSection = (if length headerEntriesArray > 0 then [LF] @ headerYaml else '' {}'')
      in ''  - model_name: '' @ [DQUOTE] @ model @ [DQUOTE, LF] @
         ''    litellm_params:'' @ [LF] @
         ''      model: '' @ [DQUOTE] @ model @ [DQUOTE, LF] @
         ''      provider: openrouter'' @ [LF] @
         ''      api_base: '' @ [DQUOTE] @ upstreamBaseUrl options @ [DQUOTE, LF] @
         ''      api_key: '' @ [DQUOTE] @ apiKey options @ [DQUOTE, LF] @
         ''      extra_headers:'' @ extraHeadersSection)"

definition modelListYaml :: "OpenRouterProxyOptions \<Rightarrow> string" where
  "modelListYaml options = join [LF] (map (modelYaml options) (allModels options))"

definition configYaml :: "OpenRouterProxyOptions \<Rightarrow> string \<Rightarrow> string" where
  "configYaml options key =
     ''model_list:'' @ [LF] @ modelListYaml options @ [LF, LF] @
     ''general_settings:'' @ [LF] @
     ''  master_key: '' @ [DQUOTE] @ key @ [DQUOTE, LF] @
     ''  stream_timeout: 600'' @ [LF]"

text \<open>\<open>path.join(dir, name)\<close> for a directory path in normal form.\<close>

definition pathJoin :: "string \<Rightarrow> string \<Rightarrow> string" where
  "pathJoin dir nm = dir @ ''/'' @ nm"

definition proxyArgs :: "string \<Rightarrow> nat \<Rightarrow> string list" where
  "proxyArgs configPath port =
     [''-m'', ''litellm'', ''--config'', configPath, ''--port'', toStringNat port,
      ''--host'', ''127.0.0.1'']"

definition startOpenRouterProxy :: "env \<Rightarrow> OpenRouterProxyOptions \<Rightarrow> world \<Rightarrow> ProxyHandle io" where
  "startOpenRouterProxy environ options w =
     (if environ ''CLAUDE_CODE_OPENROUTER_DISABLE_PROXY'' = Some ''1''
      then ioThrow (Error ''OpenRouter proxy startup disabled via CLAUDE_CODE_OPENROUTER_DISABLE_PROXY'')
      else
        ioBind (getAvailablePort w) (\<lambda>port.
        ioBind (perform (Mkdtemp (pathJoin (tmpdir w) ''litellm-openrouter-'')) (mkdtempOutcome w))
          (\<lambda>workingDir.
        let key = ''sk-litellm-proxy-'' @ sliceFrom (randomBase36 w) 2;
            config = configYaml options key;
            configPath = pathJoin workingDir ''config.yaml''
        in
        ioBind (perform (WriteFile configPath config) (writeFileOutcome w)) (\<lambda>_.
        ioBind (installProxyDependency w) (\<lambda>_.
        ioBind (perform
                  (Spawn ''python3'' (proxyArgs configPath port) (Some workingDir)
                     [(''OPENROUTER_API_KEY'', apiKey options)])
                  (Inr ())) (\<lambda>_.
        ioBind (waitForProxy w port) (\<lambda>_.
        ioReturn
          \<lparr>baseUrl = ''http://127.0.0.1:'' @ toStringNat port @ ''/anthropic'',
           masterKey = key,
           stop = [Kill ''SIGTERM'']\<rparr>)))))))"

section \<open>The lifecycle orchestrator (\<open>openrouter.ts\<close>)\<close>

definition DEFAULT_REMOTE_BASE_URL :: string where
  "DEFAULT_REMOTE_BASE_URL = ''https://openrouter.ai/api/v1''"

record procState =
  proxyInitialized :: bool
  processEnv :: env

text \<open>\<open>if (x) setHeader(headers, name, x)\<close> for \<open>x = process.env.V?.trim()\<close>.\<close>

definition setHeaderIfGiven :: "headerMap \<Rightarrow> string \<Rightarrow> string option \<Rightarrow> headerMap" where
  "setHeaderIfGiven headers nm x =
     (case x of None \<Rightarrow> headers | Some s \<Rightarrow> if trim s = [] then headers else setHeader headers nm (trim s))"

text \<open>The header map that the direct mode builds before it serializes it.\<close>

definition directHeaders :: "env \<Rightarrow> string \<Rightarrow> headerMap" where
  "directHeaders environ openRouterKey =
     foldl (\<lambda>headers p. mapSet (fst p) (snd p) headers)
       (setHeaderIfGiven
          (setHeaderIfGiven
             (setHeader (parseHeaderLines (environ ''ANTHROPIC_CUSTOM_HEADERS''))
                ''Authorization'' (''Bearer '' @ openRouterKey))
             ''HTTP-Referer'' (environ ''OPENROUTER_SITE_URL''))
          ''X-Title'' (environ ''OPENROUTER_APP_TITLE''))
       (parseHeaderLines (environ ''OPENROUTER_EXTRA_HEADERS''))"

definition registerCleanup :: "event list" where
  "registerCleanup = [ProcessOnce ''exit'', ProcessOnce ''SIGINT'', ProcessOnce ''SIGTERM'']"

definition preferredModelOf :: "env \<Rightarrow> string option" where
  "preferredModelOf environ =
     (case environ ''ANTHROPIC_MODEL'' of
        None \<Rightarrow> extractModelFromClaudeArgs (environ ''INPUT_CLAUDE_ARGS'')
      | Some m \<Rightarrow>
          if trim m = [] then extractModelFromClaudeArgs (environ ''INPUT_CLAUDE_ARGS'')
          else Some (trim m))"

definition configureOpenRouterEnvironment :: "procState \<Rightarrow> world \<Rightarrow> procState io" where
  "configureOpenRouterEnvironment st w =
     (let environ = processEnv st in
      if proxyInitialized st then ioReturn st
      else if environ ''CLAUDE_CODE_USE_OPENROUTER'' \<noteq> Some ''1'' then ioReturn st
      else if environ ''OPENROUTER_API_KEY'' = None \<or> environ ''OPENROUTER_API_KEY'' = Some []
      then perform (Warn ''CLAUDE_CODE_USE_OPENROUTER is set but OPENROUTER_API_KEY is missing'') (Inr st)
      else
        (let openRouterKey = the (environ ''OPENROUTER_API_KEY'');
             remoteBaseUrl = trimmedOr (environ ''OPENROUTER_BASE_URL'') DEFAULT_REMOTE_BASE_URL
         in if environ ''CLAUDE_CODE_OPENROUTER_DISABLE_PROXY'' = Some ''1''
            then ioReturn
              \<lparr>proxyInitialized = True,
               processEnv =
                 (if environ ''ANTHROPIC_API_KEY'' = None \<or> environ ''ANTHROPIC_API_KEY'' = Some []
                  then environ(''ANTHROPIC_API_KEY'' \<mapsto> openRouterKey) else environ)
                 (''ANTHROPIC_CUSTOM_HEADERS'' \<mapsto> serializeHeaders (directHeaders environ openRouterKey),
                  ''ANTHROPIC_BASE_URL'' \<mapsto> remoteBaseUrl)\<rparr>
            else
              ioBind
                (startOpenRouterProxy environ
                   \<lparr>apiKey = openRouterKey,
                    upstreamBaseUrl = remoteBaseUrl,
                    siteUrl = environ ''OPENROUTER_SITE_URL'',
                    appTitle = environ ''OPENROUTER_APP_TITLE'',
                    extraHeaders = environ ''OPENROUTER_EXTRA_HEADERS'',
                    preferredModel = preferredModelOf environ,
                    additionalModels = Some (parseAdditionalModels (environ ''OPENROUTER_ADDITIONAL_MODELS''))\<rparr>
                   w)
                (\<lambda>proxy.
                   after registerCleanup
                     (ioReturn
                        \<lparr>proxyInitialized = True,
                         processEnv =
                           (environ(''ANTHROPIC_BASE_URL'' \<mapsto> baseUrl proxy,
                                    ''ANTHROPIC_API_KEY'' \<mapsto> masterKey proxy))
                           (''ANTHROPIC_CUSTOM_HEADERS'' := None)\<rparr>))))"


section \<open>Notions the properties are stated with\<close>

subsection \<open>Polling and retrying\<close>

text \<open>A poll finds the proxy ready when it gets a response whose status is successful;
  \<open>firstReady\<close> is the first attempt below the ceiling that does. \<open>pollEvents url k\<close> are
  the events of \<open>k\<close> attempts that did not: each a fetch and the delay after it.\<close>

definition isReady :: "fetchOutcome \<Rightarrow> bool" where
  "isReady r = (case r of Response status \<Rightarrow> responseOk status | NetworkError err \<Rightarrow> False)"

definition firstReady :: "world \<Rightarrow> nat option" where
  "firstReady w = find (\<lambda>i. isReady (health w i)) [0..<maxAttempts]"

definition healthUrl :: "nat \<Rightarrow> string" where
  "healthUrl port = ''http://127.0.0.1:'' @ toStringNat port @ ''/health''"

definition pollEvents :: "string \<Rightarrow> nat \<Rightarrow> event list" where
  "pollEvents url k = concat (replicate k [Fetch url, Delay 200])"

definition timeoutError :: error where
  "timeoutError = Error ''Timed out waiting for OpenRouter proxy to become ready''"

text \<open>An unhealthy response read as a network error.\<close>

definition asNetworkError :: "fetchOutcome \<Rightarrow> fetchOutcome" where
  "asNetworkError r =
     (case r of
        Response status \<Rightarrow> if responseOk status then r else NetworkError ''unhealthy''
      | NetworkError err \<Rightarrow> r)"

text \<open>The events of \<open>k\<close> binds that failed and were tried again.\<close>

definition retryEvents :: "nat \<Rightarrow> event list" where
  "retryEvents k = concat (replicate k [Listen, CloseServer, SetTimeout 100])"

subsection \<open>The model set\<close>

text \<open>A list without its repetitions: of every element the first occurrence is kept.\<close>

definition firstOccurrences :: "'a list \<Rightarrow> 'a list" where
  "firstOccurrences xs = rev (remdups (rev xs))"

text \<open>The preferred model as the code adds it (when given and not empty), and the
  additional models as it adds them (trimmed, the empty ones left out).\<close>

definition preferredList :: "OpenRouterProxyOptions \<Rightarrow> string list" where
  "preferredList options =
     (case preferredModel options of None \<Rightarrow> [] | Some m \<Rightarrow> if m = [] then [] else [m])"

definition additionalList :: "OpenRouterProxyOptions \<Rightarrow> string list" where
  "additionalList options =
     filter (\<lambda>model. model \<noteq> [])
       (map trim (case additionalModels options of None \<Rightarrow> [] | Some ms \<Rightarrow> ms))"

subsection \<open>The steps of a proxy start\<close>

text \<open>
  The steps of a proxy start. An event belongs to the synthesis of the configuration when
  it obtains one of its values (the port, the working directory), to the write of the
  configuration file, to the installation of the dependency (the \<open>pip\<close> child), to the
  spawn of the proxy, or to the readiness polling. \<open>codeOrder\<close> numbers the steps as the
  code runs them, \<open>claimedOrder\<close> with the installation before the write.
\<close>

datatype stage = Synthesis | ConfigWrite | DependencyInstall | ProxySpawn | ReadinessPoll | Afterwards

fun stageOf :: "event \<Rightarrow> stage" where
  "stageOf Listen = Synthesis"
| "stageOf CloseServer = Synthesis"
| "stageOf (SetTimeout ms) = Synthesis"
| "stageOf (Mkdtemp pre) = Synthesis"
| "stageOf (WriteFile path content) = ConfigWrite"
| "stageOf (Spawn command args cwd vars) = (if args = installArgs then DependencyInstall else ProxySpawn)"
| "stageOf (Fetch url) = ReadinessPoll"
| "stageOf (Delay ms) = ReadinessPoll"
| "stageOf (Kill signal) = Afterwards"
| "stageOf (Warn message) = Afterwards"
| "stageOf (ProcessOnce nm) = Afterwards"

fun codeOrder :: "stage \<Rightarrow> nat" where
  "codeOrder Synthesis = 0"
| "codeOrder ConfigWrite = 1"
| "codeOrder DependencyInstall = 2"
| "codeOrder ProxySpawn = 3"
| "codeOrder ReadinessPoll = 4"
| "codeOrder Afterwards = 5"

fun claimedOrder :: "stage \<Rightarrow> nat" where
  "claimedOrder Synthesis = 0"
| "claimedOrder DependencyInstall = 1"
| "claimedOrder ConfigWrite = 2"
| "claimedOrder ProxySpawn = 3"
| "claimedOrder ReadinessPoll = 4"
| "claimedOrder Afterwards = 5"

text \<open>The write of the configuration file and the spawn of the proxy, as events.\<close>

definition configWritten :: "OpenRouterProxyOptions \<Rightarrow> world \<Rightarrow> string \<Rightarrow> event" where
  "configWritten options w dir =
     WriteFile (pathJoin dir ''config.yaml'')
       (configYaml options (''sk-litellm-proxy-'' @ sliceFrom (randomBase36 w) 2))"

definition proxySpawned :: "OpenRouterProxyOptions \<Rightarrow> string \<Rightarrow> nat \<Rightarrow> event" where
  "proxySpawned options dir port =
     Spawn ''python3'' (proxyArgs (pathJoin dir ''config.yaml'') port) (Some dir)
       [(''OPENROUTER_API_KEY'', apiKey options)]"

text \<open>The prefix of every master key.\<close>

definition masterKeyPrefix :: string where
  "masterKeyPrefix = ''sk-litellm-proxy-''"

subsection \<open>Header maps\<close>

text \<open>Every entry of a header map stands under the lower-cased form of its name.\<close>

definition keyedByName :: "headerMap \<Rightarrow> bool" where
  "keyedByName m = list_all (\<lambda>p. fst p = toLowerCase (hname (snd p))) m"

text \<open>The entry that the direct mode injects, and the entry that a given site URL or
  application title adds (none when the variable is unset or blank).\<close>

definition bearer :: "string \<Rightarrow> HeaderEntry" where
  "bearer openRouterKey = \<lparr>hname = ''Authorization'', hvalue = ''Bearer '' @ openRouterKey\<rparr>"

definition givenHeader :: "string \<Rightarrow> string option \<Rightarrow> string \<rightharpoonup> HeaderEntry" where
  "givenHeader nm x =
     (case x of
        None \<Rightarrow> Map.empty
      | Some s \<Rightarrow> if trim s = [] then Map.empty
                  else [toLowerCase nm \<mapsto> \<lparr>hname = nm, hvalue = trim s\<rparr>])"

text \<open>The headers that the environment holds already, and the extra headers of the caller.\<close>

definition customExisting :: "env \<Rightarrow> headerMap" where
  "customExisting environ = parseHeaderLines (environ ''ANTHROPIC_CUSTOM_HEADERS'')"

definition extraDirectives :: "env \<Rightarrow> headerMap" where
  "extraDirectives environ = parseHeaderLines (environ ''OPENROUTER_EXTRA_HEADERS'')"

subsection \<open>JSON texts in braces\<close>

text \<open>The parser's stack has an object at its bottom: what holds while it reads a text
  that starts with \<open>{\<close>, until it has finished with that object as the value.\<close>

fun isObjectFrame :: "frame \<Rightarrow> bool" where
  "isObjectFrame (ArrayFrame vs) = False"
| "isObjectFrame (ObjectFrame ms) = True"
| "isObjectFrame (MemberFrame ms k) = True"

definition bottomIsObject :: "frame list \<Rightarrow> bool" where
  "bottomIsObject st = (st \<noteq> [] \<and> isObjectFrame (last st))"

fun objectOutcome :: "expect \<times> frame list \<Rightarrow> bool" where
  "objectOutcome (Finished v, st) = (st = [] \<and> (case v of JObject ms \<Rightarrow> True | _ \<Rightarrow> False))"
| "objectOutcome (e, st) = bottomIsObject st"

section \<open>Example inputs\<close>

text \<open>A world where the first bind and the installation succeed and the health endpoint
  answers 503 to every poll; the same world with the answer 200 to every poll (the draw
  \<open>Math.random()\<close> is \<open>0.5\<close>, which \<open>toString(36)\<close> renders as \<open>0.i\<close>); and worlds
  where the first two binds fail, and where every bind fails.\<close>

definition unhealthyWorld :: world where
  "unhealthyWorld =
     \<lparr>listenOutcome = (\<lambda>n. Listening (AddressInfo 40213)),
      tmpdir = ''/tmp'',
      mkdtempOutcome = Inr ''/tmp/litellm-openrouter-AbCdEf'',
      randomBase36 = ''0.i'',
      writeFileOutcome = Inr (),
      installOutcome = ChildExit (Some 0),
      health = (\<lambda>n. Response 503)\<rparr>"

definition readyWorld :: world where
  "readyWorld = unhealthyWorld\<lparr>health := (\<lambda>n. Response 200)\<rparr>"

text \<open>The same world with a proxy that comes up late: the first poll finds the
  connection refused, the second gets 503 and every later one 200. The requests of these
  two worlds, which all settle; and requests of which the first gets 503 and the second
  stays pending.\<close>

definition slowStartWorld :: world where
  "slowStartWorld =
     unhealthyWorld\<lparr>health :=
       (\<lambda>n. if n = 0 then NetworkError ''ECONNREFUSED''
            else if n = 1 then Response 503 else Response 200)\<rparr>"

definition slowStartFetches :: "nat \<Rightarrow> fetchOutcome option" where
  "slowStartFetches n =
     (if n = 0 then Some (NetworkError ''ECONNREFUSED'')
      else if n = 1 then Some (Response 503) else Some (Response 200))"

definition unhealthyFetches :: "nat \<Rightarrow> fetchOutcome option" where
  "unhealthyFetches n = Some (Response 503)"

definition stalledFetches :: "nat \<Rightarrow> fetchOutcome option" where
  "stalledFetches n = (if n = 0 then Some (Response 503) else None)"

definition flakyBindWorld :: world where
  "flakyBindWorld =
     unhealthyWorld\<lparr>listenOutcome :=
       (\<lambda>n. if n < 2 then ListenError ''EADDRINUSE'' else Listening (AddressInfo 40213))\<rparr>"

definition noBindWorld :: world where
  "noBindWorld =
     unhealthyWorld\<lparr>listenOutcome :=
       (\<lambda>n. if n < 5 then ListenError ''EADDRINUSE'' else ListenError ''EMFILE'')\<rparr>"

text \<open>Options with a preferred model and additional models; the same options with the
  upstream key that equals the master key of the draw \<open>0.i\<close>; and with an extra header
  \<open>X-A\<close> of the value \<open>a"b\<close>.\<close>

definition exampleOptions :: OpenRouterProxyOptions where
  "exampleOptions =
     \<lparr>apiKey = ''sk-or-v1-0123'',
      upstreamBaseUrl = ''https://openrouter.ai/api/v1'',
      siteUrl = None,
      appTitle = None,
      extraHeaders = None,
      preferredModel = Some ''openai/gpt-4o'',
      additionalModels = Some ['' x/y '', '''', ''openai/gpt-4o'', ''anthropic/claude-sonnet-4'']\<rparr>"

definition collidingOptions :: OpenRouterProxyOptions where
  "collidingOptions = exampleOptions\<lparr>apiKey := ''sk-litellm-proxy-i''\<rparr>"

definition quotedHeaderOptions :: OpenRouterProxyOptions where
  "quotedHeaderOptions = exampleOptions\<lparr>extraHeaders := Some (''X-A: a'' @ [DQUOTE] @ ''b'')\<rparr>"

text \<open>Direct mode with the existing header \<open>X-Test: Value\<close>; and with an existing and an
  extra \<open>Authorization\<close> header, in other casings.\<close>

definition scenarioC :: procState where
  "scenarioC =
     \<lparr>proxyInitialized = False,
      processEnv =
        [''CLAUDE_CODE_USE_OPENROUTER'' \<mapsto> ''1'',
         ''OPENROUTER_API_KEY'' \<mapsto> ''abc123'',
         ''CLAUDE_CODE_OPENROUTER_DISABLE_PROXY'' \<mapsto> ''1'',
         ''ANTHROPIC_CUSTOM_HEADERS'' \<mapsto> ''X-Test: Value'']\<rparr>"

definition scenarioD :: procState where
  "scenarioD =
     \<lparr>proxyInitialized = False,
      processEnv =
        [''CLAUDE_CODE_USE_OPENROUTER'' \<mapsto> ''1'',
         ''OPENROUTER_API_KEY'' \<mapsto> ''abc123'',
         ''CLAUDE_CODE_OPENROUTER_DISABLE_PROXY'' \<mapsto> ''1'',
         ''ANTHROPIC_CUSTOM_HEADERS'' \<mapsto> ''authorization: Basic old'' @ [LF] @ ''X-Test: Value'',
         ''OPENROUTER_EXTRA_HEADERS'' \<mapsto> ''AUTHORIZATION: Bearer override'']\<rparr>"

text \<open>Header inputs: one name in two casings on two lines; the JSON array \<open>["a: b"]\<close>;
  the JSON object \<open>{"X-Test":"Value"}\<close>; a line in braces that is no JSON.\<close>

definition twoCasings :: string where
  "twoCasings = ''X-Title: a'' @ [LF] @ ''x-title: b''"

definition jsonArrayInput :: string where
  "jsonArrayInput = ''['' @ [DQUOTE] @ ''a: b'' @ [DQUOTE] @ '']''"

definition jsonObjectInput :: string where
  "jsonObjectInput = ''{'' @ [DQUOTE] @ ''X-Test'' @ [DQUOTE] @ '':'' @ [DQUOTE] @ ''Value'' @ [DQUOTE] @ ''}''"

definition bracedInput :: string where
  "bracedInput = ''{X-Test: Value}''"

section \<open>Readiness polling\<close>

lemma pollEvents_Suc: "pollEvents url (Suc k) = [Fetch url, Delay 200] @ pollEvents url k"
  by (simp add: pollEvents_def)

lemma find_upt_bounds: "find P [a..<b] = Some k \<Longrightarrow> a \<le> k \<and> k < b"
  by (auto simp: find_Some_iff)

lemma waitLoop_closed:
  "attempt \<le> maxAttempts \<Longrightarrow>
   waitLoop w url attempt =
     (case find (\<lambda>i. isReady (health w i)) [attempt..<maxAttempts] of
        Some k \<Rightarrow> (pollEvents url (k - attempt) @ [Fetch url], Inr ())
      | None \<Rightarrow> (pollEvents url (maxAttempts - attempt), Inl timeoutError))"
proof (induction w url attempt rule: waitLoop.induct)
  case (1 w url attempt)
  show ?case
  proof (cases "attempt < maxAttempts")
    case False
    with "1.prems" have "attempt = maxAttempts" by simp
    then show ?thesis
      by (simp add: waitLoop.simps [of w url maxAttempts] ioThrow_def pollEvents_def timeoutError_def)
  next
    case True
    then have upt: "[attempt..<maxAttempts] = attempt # [Suc attempt..<maxAttempts]"
      by (simp add: upt_conv_Cons)
    show ?thesis
    proof (cases "isReady (health w attempt)")
      case ready: True
      then obtain status where "health w attempt = Response status" "responseOk status"
        by (auto simp: isReady_def split: fetchOutcome.splits)
      with True ready show ?thesis
        by (simp add: waitLoop.simps [of w url attempt] upt perform_def pollEvents_def)
    next
      case notReady: False
      have step: "waitLoop w url attempt = after [Fetch url, Delay 200] (waitLoop w url (Suc attempt))"
        using True notReady
        by (simp add: waitLoop.simps [of w url attempt] isReady_def split: fetchOutcome.splits)
      have ih: "waitLoop w url (Suc attempt) =
        (case find (\<lambda>i. isReady (health w i)) [Suc attempt..<maxAttempts] of
           Some k \<Rightarrow> (pollEvents url (k - Suc attempt) @ [Fetch url], Inr ())
         | None \<Rightarrow> (pollEvents url (maxAttempts - Suc attempt), Inl timeoutError))"
      proof (cases "health w attempt")
        case (Response status)
        with notReady have "\<not> responseOk status" by (simp add: isReady_def)
        with "1.IH"(1) [OF True Response] True show ?thesis by (simp split: option.splits)
      next
        case (NetworkError err)
        with "1.IH"(2) [OF True NetworkError] True show ?thesis by (simp split: option.splits)
      qed
      show ?thesis
      proof (cases "find (\<lambda>i. isReady (health w i)) [Suc attempt..<maxAttempts]")
        case None
        have "maxAttempts - attempt = Suc (maxAttempts - Suc attempt)" using True by simp
        with None notReady show ?thesis
          by (simp add: step ih upt after_def pollEvents_Suc)
      next
        case (Some k)
        then have "Suc attempt \<le> k" using find_upt_bounds by blast
        then have "k - attempt = Suc (k - Suc attempt)" by simp
        with Some notReady show ?thesis
          by (simp add: step ih upt after_def pollEvents_Suc)
      qed
    qed
  qed
qed

lemma waitForProxy_closed:
  "waitForProxy w port =
     (case firstReady w of
        Some k \<Rightarrow> (pollEvents (healthUrl port) k @ [Fetch (healthUrl port)], Inr ())
      | None \<Rightarrow> (pollEvents (healthUrl port) maxAttempts, Inl timeoutError))"
  using waitLoop_closed [of 0 w "healthUrl port"]
  by (simp add: waitForProxy_def firstReady_def healthUrl_def split: option.splits)

lemma firstReady_bound: "firstReady w = Some k \<Longrightarrow> k < maxAttempts"
  unfolding firstReady_def using find_upt_bounds by blast

lemma fetches_pollEvents: "length (filter (\<lambda>e. e = Fetch url) (pollEvents url k)) = k"
  by (induction k) (simp_all add: pollEvents_def)

lemma set_pollEvents: "set (pollEvents url k) \<subseteq> {Fetch url, Delay 200}"
  by (induction k) (simp_all add: pollEvents_def)

lemma waitLoopOn_settled:
  "(\<And>i. attempt \<le> i \<Longrightarrow> i < maxAttempts \<Longrightarrow> fetches i = Some (health w i)) \<Longrightarrow>
   waitLoopOn fetches url attempt = Some (waitLoop w url attempt)"
proof (induction w url attempt rule: waitLoop.induct)
  case (1 w url attempt)
  show ?case
  proof (cases "attempt < maxAttempts")
    case False
    then show ?thesis
      by (simp add: waitLoopOn.simps [of fetches url attempt] waitLoop.simps [of w url attempt])
  next
    case True
    then have here: "fetches attempt = Some (health w attempt)"
      using "1.prems" [of attempt] by simp
    have later: "fetches i = Some (health w i)" if "attempt + 1 \<le> i" "i < maxAttempts" for i
      using "1.prems" [of i] that by simp
    show ?thesis
    proof (cases "health w attempt")
      case (Response status)
      show ?thesis
      proof (cases "responseOk status")
        case ok: True
        with True here Response show ?thesis
          by (simp add: waitLoopOn.simps [of fetches url attempt] waitLoop.simps [of w url attempt])
      next
        case notOk: False
        have "waitLoopOn fetches url (attempt + 1) = Some (waitLoop w url (attempt + 1))"
          using "1.IH"(1) [OF True Response notOk] later by blast
        with True here Response notOk show ?thesis
          by (simp add: waitLoopOn.simps [of fetches url attempt] waitLoop.simps [of w url attempt])
      qed
    next
      case (NetworkError err)
      have "waitLoopOn fetches url (attempt + 1) = Some (waitLoop w url (attempt + 1))"
        using "1.IH"(2) [OF True NetworkError] later by blast
      with True here NetworkError show ?thesis
        by (simp add: waitLoopOn.simps [of fetches url attempt] waitLoop.simps [of w url attempt])
    qed
  qed
qed

lemma waitForProxyOn_settled:
  assumes "list_all (\<lambda>i. fetches i = Some (health w i)) [0..<30]"
  shows "waitForProxyOn fetches port = Some (waitForProxy w port)"
proof -
  have "fetches i = Some (health w i)" if "i < maxAttempts" for i
    using assms that by (simp add: list_all_iff maxAttempts_def)
  then show ?thesis
    unfolding waitForProxyOn_def waitForProxy_def by (intro waitLoopOn_settled) simp
qed

text \<open>A request that stays pending, after attempts that all settled without finding the
  proxy ready, keeps the probe waiting: it never returns.\<close>

lemma waitLoopOn_pending:
  "attempt \<le> j \<Longrightarrow> j < maxAttempts \<Longrightarrow> fetches j = None \<Longrightarrow>
   (\<And>i. attempt \<le> i \<Longrightarrow> i < j \<Longrightarrow> \<exists>r. fetches i = Some r \<and> \<not> isReady r) \<Longrightarrow>
   waitLoopOn fetches url attempt = None"
proof (induction "j - attempt" arbitrary: attempt)
  case 0
  then have "attempt = j" by simp
  with 0 show ?case
    by (simp add: waitLoopOn.simps [of fetches url j])
next
  case (Suc d)
  then have lt: "attempt < j" by simp
  then obtain r where r: "fetches attempt = Some r" "\<not> isReady r"
    using Suc.prems(4) [of attempt] by auto
  have "waitLoopOn fetches url (attempt + 1) = None"
  proof (rule Suc.hyps(1))
    show "d = j - (attempt + 1)" using Suc.hyps(2) by simp
    show "attempt + 1 \<le> j" using lt by simp
    show "j < maxAttempts" by (rule Suc.prems(2))
    show "fetches j = None" by (rule Suc.prems(3))
    show "\<exists>r. fetches i = Some r \<and> \<not> isReady r" if "attempt + 1 \<le> i" "i < j" for i
      using Suc.prems(4) [of i] that by simp
  qed
  moreover have "attempt < maxAttempts" using lt Suc.prems(2) by simp
  ultimately show ?case
    using r by (cases r) (simp_all add: waitLoopOn.simps [of fetches url attempt] isReady_def)
qed

lemma waitForProxyOn_pending:
  assumes "j < 30" and "fetches j = None"
    and "list_all (\<lambda>i. case fetches i of Some r \<Rightarrow> \<not> isReady r | None \<Rightarrow> False) [0..<j]"
  shows "waitForProxyOn fetches port = None"
proof -
  have "\<exists>r. fetches i = Some r \<and> \<not> isReady r" if "i < j" for i
  proof -
    from assms(3) that
    have "case fetches i of Some r \<Rightarrow> \<not> isReady r | None \<Rightarrow> False"
      by (simp add: list_all_iff)
    then show ?thesis by (cases "fetches i") simp_all
  qed
  with assms(1,2) show ?thesis
    unfolding waitForProxyOn_def
    by (intro waitLoopOn_pending [of 0 j]) (simp_all add: maxAttempts_def)
qed

lemma waitForProxyOn_stalled: "waitForProxyOn stalledFetches port = None"
  by (rule waitForProxyOn_pending [of 1])
     (simp_all add: stalledFetches_def isReady_def responseOk_def)

text \<open>
  C7. The readiness probe fetches \<open>/health\<close> of the local port, waits 200 ms after each
  attempt that did not find the proxy ready, and makes at most 30 attempts. Provided that
  each of the 30 requests settles, in a response or in a network error (the code sets no
  timeout on a request and waits on it while it stays pending), the probe ends, for every
  sequence of such outcomes: with success at the first attempt that gets a successful
  response, and otherwise with the timeout error after 30 fetches, each followed by its
  delay of 200 ms. A network error is never the outcome; it only makes the attempt one
  that did not find the proxy ready.
\<close>

theorem waitForProxy_bounded_polling:
  "list_all (\<lambda>i. fetches i = Some (health w i)) [0..<30] \<Longrightarrow>
   waitForProxyOn fetches port = Some (waitForProxy w port)
   \<and> waitForProxy w port =
       (case find (\<lambda>i. isReady (health w i)) [0..<30] of
          Some k \<Rightarrow> (pollEvents (healthUrl port) k @ [Fetch (healthUrl port)], Inr ())
        | None \<Rightarrow>
            (concat (replicate 30 [Fetch (healthUrl port), Delay 200]),
             Inl (Error ''Timed out waiting for OpenRouter proxy to become ready'')))
   \<and> length (filter (\<lambda>e. e = Fetch (healthUrl port)) (fst (waitForProxy w port))) \<le> 30
   \<and> set (fst (waitForProxy w port)) \<subseteq> {Fetch (healthUrl port), Delay 200}
   \<and> (snd (waitForProxy w port) = Inr () \<or> snd (waitForProxy w port) = Inl timeoutError)"
proof -
  assume settle: "list_all (\<lambda>i. fetches i = Some (health w i)) [0..<30]"
  have closed: "waitForProxy w port =
       (case find (\<lambda>i. isReady (health w i)) [0..<30] of
          Some k \<Rightarrow> (pollEvents (healthUrl port) k @ [Fetch (healthUrl port)], Inr ())
        | None \<Rightarrow>
            (concat (replicate 30 [Fetch (healthUrl port), Delay 200]),
             Inl (Error ''Timed out waiting for OpenRouter proxy to become ready'')))"
    by (simp add: waitForProxy_closed firstReady_def maxAttempts_def pollEvents_def
          timeoutError_def split: option.splits)
  have rest: "length (filter (\<lambda>e. e = Fetch (healthUrl port)) (fst (waitForProxy w port))) \<le> 30
     \<and> set (fst (waitForProxy w port)) \<subseteq> {Fetch (healthUrl port), Delay 200}
     \<and> (snd (waitForProxy w port) = Inr () \<or> snd (waitForProxy w port) = Inl timeoutError)"
  proof (cases "firstReady w")
    case None
    then show ?thesis
      using set_pollEvents [of "healthUrl port" maxAttempts]
      by (simp add: waitForProxy_closed fetches_pollEvents maxAttempts_def)
  next
    case (Some k)
    then have "k < 30" using firstReady_bound by (simp add: maxAttempts_def)
    with Some show ?thesis
      using set_pollEvents [of "healthUrl port" k]
      by (simp add: waitForProxy_closed fetches_pollEvents)
  qed
  from waitForProxyOn_settled [OF settle] closed rest show ?thesis by (simp only:)
qed

theorem waitForProxy_bounded_polling_witness:
  "list_all (\<lambda>i. slowStartFetches i = Some (health slowStartWorld i)) [0..<30]
   \<and> waitForProxyOn slowStartFetches 40213 =
       Some ([Fetch ''http://127.0.0.1:40213/health'', Delay 200,
              Fetch ''http://127.0.0.1:40213/health'', Delay 200,
              Fetch ''http://127.0.0.1:40213/health''], Inr ())
   \<and> list_all (\<lambda>i. unhealthyFetches i = Some (health unhealthyWorld i)) [0..<30]
   \<and> waitForProxyOn unhealthyFetches 40213 =
       Some (concat (replicate 30 [Fetch ''http://127.0.0.1:40213/health'', Delay 200]),
             Inl (Error ''Timed out waiting for OpenRouter proxy to become ready''))
   \<and> length (filter (\<lambda>e. e = Fetch ''http://127.0.0.1:40213/health'')
               (fst (waitForProxy unhealthyWorld 40213))) = 30"
proof -
  have url: "healthUrl 40213 = ''http://127.0.0.1:40213/health''"
    by (simp add: healthUrl_def toStringNat.simps digitChar_def)
  have slow: "list_all (\<lambda>i. slowStartFetches i = Some (health slowStartWorld i)) [0..<30]"
    by (simp add: list_all_iff slowStartFetches_def slowStartWorld_def)
  have unhealthy: "list_all (\<lambda>i. unhealthyFetches i = Some (health unhealthyWorld i)) [0..<30]"
    by (simp add: list_all_iff unhealthyFetches_def unhealthyWorld_def)
  have upt: "[0..<30] = 0 # 1 # 2 # [3..<30]"
    by (simp add: upt_conv_Cons)
  have first: "find (\<lambda>i. isReady (health slowStartWorld i)) [0..<30] = Some 2"
    unfolding upt by (simp add: slowStartWorld_def isReady_def responseOk_def)
  have never: "find (\<lambda>i. isReady (health unhealthyWorld i)) [0..<30] = None"
    by (simp add: find_None_iff unhealthyWorld_def isReady_def responseOk_def)
  have two: "pollEvents u 2 = [Fetch u, Delay 200, Fetch u, Delay 200]" for u
    by (simp add: pollEvents_def numeral_2_eq_2)
  have count: "length (filter (\<lambda>e. e = Fetch u) (concat (replicate n [Fetch u, Delay 200]))) = n"
    for u n by (induction n) simp_all
  show ?thesis
    using waitForProxy_bounded_polling [OF slow, of 40213]
      waitForProxy_bounded_polling [OF unhealthy, of 40213]
    by (simp add: slow unhealthy url first never two count)
qed


lemma isReady_asNetworkError: "isReady (asNetworkError r) = isReady r"
  by (simp add: isReady_def asNetworkError_def split: fetchOutcome.splits)

text \<open>
  C10. A response of the health endpoint whose status is not successful counts as a
  network error does: replacing every such response by a network error changes neither
  the calls the probe makes nor its outcome. When no attempt up to the ceiling gets a
  successful response, the probe has polled 30 times and fails with the timeout error.
\<close>

theorem waitForProxy_unhealthy_as_network_error:
  "waitForProxy (w\<lparr>health := \<lambda>i. asNetworkError (health w i)\<rparr>) port = waitForProxy w port
   \<and> (firstReady w = None \<longrightarrow>
        waitForProxy w port = (pollEvents (healthUrl port) maxAttempts, Inl timeoutError))"
proof -
  have "firstReady (w\<lparr>health := \<lambda>i. asNetworkError (health w i)\<rparr>) = firstReady w"
    by (simp add: firstReady_def isReady_asNetworkError)
  then show ?thesis
    by (simp add: waitForProxy_closed)
qed


theorem waitForProxy_unhealthy_witness:
  "firstReady unhealthyWorld = None \<and>
   waitForProxy unhealthyWorld 40213 =
     (pollEvents ''http://127.0.0.1:40213/health'' 30, Inl timeoutError)"
proof -
  have none: "firstReady unhealthyWorld = None"
    by (simp add: firstReady_def find_None_iff unhealthyWorld_def isReady_def responseOk_def)
  have url: "healthUrl 40213 = ''http://127.0.0.1:40213/health''"
    by (simp add: healthUrl_def toStringNat.simps digitChar_def)
  from none show ?thesis
    using waitForProxy_unhealthy_as_network_error [of unhealthyWorld 40213]
    by (simp add: url maxAttempts_def)
qed

section \<open>Port allocation\<close>

lemma after_Nil: "after [] m = m"
  by (simp add: after_def)

lemma after_after: "after xs (after ys m) = after (xs @ ys) m"
  by (simp add: after_def)

lemma retryEvents_Suc: "retryEvents (Suc n) = [Listen, CloseServer, SetTimeout 100] @ retryEvents n"
  by (simp add: retryEvents_def)

lemma tryListen_retries:
  "attempts + n \<le> 5 \<Longrightarrow>
   (\<forall>i<n. \<exists>e. listenOutcome w (attempts + i) = ListenError e) \<Longrightarrow>
   tryListen w attempts = after (retryEvents n) (tryListen w (attempts + n))"
proof (induction n arbitrary: attempts)
  case 0
  show ?case by (simp add: retryEvents_def after_Nil)
next
  case (Suc n)
  from Suc.prems(2) obtain e where e: "listenOutcome w attempts = ListenError e"
    by fastforce
  have later: "\<forall>i<n. \<exists>e. listenOutcome w (Suc attempts + i) = ListenError e"
    using Suc.prems(2) by (metis Suc_less_eq add_Suc_shift)
  have "tryListen w attempts =
          after [Listen, CloseServer, SetTimeout 100] (tryListen w (Suc attempts))"
    using Suc.prems(1) e by (simp add: tryListen.simps [of w attempts])
  also have "tryListen w (Suc attempts) = after (retryEvents n) (tryListen w (Suc attempts + n))"
    using Suc.prems(1) later by (intro Suc.IH) simp_all
  finally show ?case
    by (simp add: after_after retryEvents_Suc)
qed

text \<open>
  C8. A bind that fails is tried again after 100 ms, up to 5 times: when the binds
  numbered \<open>0\<close> to \<open>k - 1\<close> fail, \<open>k \<le> 5\<close>, and the next one succeeds with the port
  \<open>p\<close> that the kernel assigned, the socket is closed and \<open>p\<close> is the result. When
  the first bind and all 5 retries fail, the error of the last bind is thrown.
\<close>

theorem getAvailablePort_retry_policy:
  "(k \<le> 5 \<and> (\<forall>i<k. \<exists>e. listenOutcome w i = ListenError e) \<and>
    listenOutcome w k = Listening (AddressInfo p) \<and> p \<noteq> 0
      \<longrightarrow> getAvailablePort w = (retryEvents k @ [Listen, CloseServer], Inr p))
   \<and> ((\<forall>i<5. \<exists>e. listenOutcome w i = ListenError e) \<and> listenOutcome w 5 = ListenError lastErr
      \<longrightarrow> getAvailablePort w = (retryEvents 5 @ [Listen, CloseServer], Inl (SystemError lastErr)))"
proof (intro conjI impI)
  assume a: "k \<le> 5 \<and> (\<forall>i<k. \<exists>e. listenOutcome w i = ListenError e) \<and>
    listenOutcome w k = Listening (AddressInfo p) \<and> p \<noteq> 0"
  then have "tryListen w 0 = after (retryEvents k) (tryListen w (0 + k))"
    by (intro tryListen_retries) simp_all
  moreover have "tryListen w k = ([Listen, CloseServer], Inr p)"
    using a by (simp add: tryListen.simps [of w k] after_def ioReturn_def)
  ultimately show "getAvailablePort w = (retryEvents k @ [Listen, CloseServer], Inr p)"
    by (simp add: getAvailablePort_def after_def)
next
  assume a: "(\<forall>i<5. \<exists>e. listenOutcome w i = ListenError e) \<and> listenOutcome w 5 = ListenError lastErr"
  then have "tryListen w 0 = after (retryEvents 5) (tryListen w (0 + 5))"
    by (intro tryListen_retries) simp_all
  moreover have "tryListen w 5 = ([Listen, CloseServer], Inl (SystemError lastErr))"
    using a by (simp add: tryListen.simps [of w 5] after_def ioThrow_def)
  ultimately show "getAvailablePort w = (retryEvents 5 @ [Listen, CloseServer], Inl (SystemError lastErr))"
    by (simp add: getAvailablePort_def after_def)
qed

theorem getAvailablePort_retry_witness:
  "getAvailablePort flakyBindWorld =
     ([Listen, CloseServer, SetTimeout 100, Listen, CloseServer, SetTimeout 100, Listen, CloseServer],
      Inr 40213)
   \<and> getAvailablePort noBindWorld = (retryEvents 5 @ [Listen, CloseServer], Inl (SystemError ''EMFILE''))"
proof -
  have "getAvailablePort flakyBindWorld = (retryEvents 2 @ [Listen, CloseServer], Inr 40213)"
    using getAvailablePort_retry_policy [of 2 flakyBindWorld 40213]
    by (simp add: flakyBindWorld_def)
  moreover have "getAvailablePort noBindWorld =
      (retryEvents 5 @ [Listen, CloseServer], Inl (SystemError ''EMFILE''))"
    using getAvailablePort_retry_policy [of _ noBindWorld _ "''EMFILE''"]
    by (simp add: noBindWorld_def)
  ultimately show ?thesis
    by (simp add: retryEvents_def numeral_2_eq_2)
qed

section \<open>The model set\<close>

lemma dropWhile_snoc_keep: "\<not> P a \<Longrightarrow> \<exists>zs. dropWhile P (ys @ [a]) = zs @ [a]"
  by (induction ys) auto

lemma dropWhile_rev_dropWhile_rev:
  assumes "u = [] \<or> \<not> P (hd u)"
  shows "dropWhile P (rev (dropWhile P (rev u))) = rev (dropWhile P (rev u))"
proof (cases u)
  case Nil
  then show ?thesis by simp
next
  case (Cons a u')
  with assms have na: "\<not> P a" by simp
  from dropWhile_snoc_keep [of P a "rev u'", OF na]
  obtain zs where zs: "dropWhile P (rev u' @ [a]) = zs @ [a]" ..
  have "rev (dropWhile P (rev u)) = a # rev zs"
    unfolding Cons rev.simps zs by simp
  with na show ?thesis by simp
qed

lemma trim_idem: "trim (trim s) = trim s"
proof -
  let ?u = "dropWhile isWhiteSpace s"
  have u: "?u = [] \<or> \<not> isWhiteSpace (hd ?u)"
    using hd_dropWhile [of isWhiteSpace s] by blast
  have "dropWhile isWhiteSpace (trim s) = trim s"
    unfolding trim_def
    using u by (rule dropWhile_rev_dropWhile_rev [of "dropWhile isWhiteSpace s" isWhiteSpace])
  then show ?thesis
    by (simp add: trim_def)
qed

lemma parseAdditionalModels_trimmed:
  "filter (\<lambda>model. model \<noteq> []) (map trim (parseAdditionalModels raw)) = parseAdditionalModels raw"
proof -
  have "filter (\<lambda>model. model \<noteq> []) (map trim (filter (\<lambda>v. v \<noteq> []) (map trim xs)))
          = filter (\<lambda>v. v \<noteq> []) (map trim xs)" for xs
    by (induction xs) (simp_all add: trim_idem)
  then show ?thesis
    by (simp add: parseAdditionalModels_def split: option.splits)
qed

lemma set_firstOccurrences: "set (firstOccurrences xs) = set xs"
  by (simp add: firstOccurrences_def)

lemma distinct_firstOccurrences: "distinct (firstOccurrences xs)"
  by (simp add: firstOccurrences_def)

lemma firstOccurrences_snoc:
  "firstOccurrences (xs @ [x]) = setAdd x (firstOccurrences xs)"
  by (simp add: firstOccurrences_def setAdd_def)

lemma foldl_setAdd:
  "foldl (\<lambda>s x. setAdd x s) (firstOccurrences ys) xs = firstOccurrences (ys @ xs)"
proof (induction xs rule: rev_induct)
  case Nil
  show ?case by simp
next
  case (snoc x xs)
  have "firstOccurrences (ys @ xs @ [x]) = setAdd x (firstOccurrences (ys @ xs))"
    using firstOccurrences_snoc [of "ys @ xs" x] by simp
  with snoc show ?case by simp
qed

lemma newSet_firstOccurrences: "newSet xs = firstOccurrences xs"
  using foldl_setAdd [of "[]" xs] by (simp add: newSet_def firstOccurrences_def)

lemma prefix_foldl_setAdd: "prefix s (foldl (\<lambda>s x. setAdd x s) s xs)"
proof (induction xs arbitrary: s)
  case Nil
  show ?case by simp
next
  case (Cons x xs)
  have "prefix s (setAdd x s)" by (simp add: setAdd_def)
  with Cons [of "setAdd x s"] show ?case by (auto intro: prefix_order.trans)
qed

lemma firstOccurrences_distinct: "distinct xs \<Longrightarrow> firstOccurrences xs = xs"
  by (simp add: firstOccurrences_def distinct_remdups_id)

lemma distinct_DEFAULT_MODELS: "distinct DEFAULT_MODELS"
  by (simp add: DEFAULT_MODELS_def)

lemma allModels_closed:
  "allModels options = firstOccurrences (DEFAULT_MODELS @ preferredList options @ additionalList options)"
proof -
  have base: "(case preferredModel options of
                 None \<Rightarrow> newSet DEFAULT_MODELS
               | Some m \<Rightarrow> if m = [] then newSet DEFAULT_MODELS else setAdd m (newSet DEFAULT_MODELS))
              = firstOccurrences (DEFAULT_MODELS @ preferredList options)"
    by (simp add: preferredList_def newSet_firstOccurrences firstOccurrences_snoc split: option.splits)
  show ?thesis
    unfolding allModels_def base additionalList_def [symmetric]
    using foldl_setAdd [of "DEFAULT_MODELS @ preferredList options" "additionalList options"]
    by (simp add: additionalList_def)
qed

text \<open>
  C9. The model set of a configuration has no identifier twice. Its order is the order
  of insertion: the default models, then the preferred model when one is given, then the
  additional models, trimmed and without the empty ones (the list that
  \<open>parseAdditionalModels\<close> returns is added as it is); a model that was already
  inserted keeps its place. The list is a function of the preferred model and the
  additional models alone, so equal inputs give the same ordered list.
\<close>

theorem allModels_ordered_set:
  "distinct (allModels options)
   \<and> allModels options =
       firstOccurrences (DEFAULT_MODELS @ preferredList options @ additionalList options)
   \<and> prefix DEFAULT_MODELS (allModels options)
   \<and> set (allModels options) =
       set DEFAULT_MODELS \<union> set (preferredList options) \<union> set (additionalList options)
   \<and> additionalList (options\<lparr>additionalModels := Some (parseAdditionalModels raw)\<rparr>)
       = parseAdditionalModels raw
   \<and> (preferredModel options' = preferredModel options \<and>
       additionalModels options' = additionalModels options
         \<longrightarrow> allModels options' = allModels options)"
proof -
  have "prefix (firstOccurrences DEFAULT_MODELS)
          (foldl (\<lambda>s x. setAdd x s) (firstOccurrences DEFAULT_MODELS)
             (preferredList options @ additionalList options))"
    by (rule prefix_foldl_setAdd)
  then have "prefix (firstOccurrences DEFAULT_MODELS) (allModels options)"
    unfolding foldl_setAdd allModels_closed .
  then have "prefix DEFAULT_MODELS (allModels options)"
    by (simp add: firstOccurrences_distinct distinct_DEFAULT_MODELS)
  moreover have "preferredModel options' = preferredModel options \<and>
       additionalModels options' = additionalModels options
         \<longrightarrow> allModels options' = allModels options"
    by (simp add: allModels_def)
  moreover have "additionalList (options\<lparr>additionalModels := Some (parseAdditionalModels raw)\<rparr>)
       = parseAdditionalModels raw"
    by (simp add: additionalList_def parseAdditionalModels_trimmed)
  ultimately show ?thesis
    by (simp add: allModels_closed distinct_firstOccurrences set_firstOccurrences Un_assoc)
qed

theorem allModels_ordered_set_witness:
  "allModels exampleOptions = DEFAULT_MODELS @ [''openai/gpt-4o'', ''x/y'']
   \<and> allModels (exampleOptions\<lparr>apiKey := ''another-key'', extraHeaders := Some ''X-A: 1''\<rparr>)
       = allModels exampleOptions"
proof -
  have pref: "preferredList exampleOptions = [''openai/gpt-4o'']"
    by (simp add: preferredList_def exampleOptions_def)
  have adds: "additionalList exampleOptions = [''x/y'', ''openai/gpt-4o'', ''anthropic/claude-sonnet-4'']"
    by (simp add: additionalList_def exampleOptions_def trim_def isWhiteSpace_def)
  have "firstOccurrences (DEFAULT_MODELS @ preferredList exampleOptions @ additionalList exampleOptions)
          = DEFAULT_MODELS @ [''openai/gpt-4o'', ''x/y'']"
    unfolding pref adds by (simp add: firstOccurrences_def DEFAULT_MODELS_def)
  then show ?thesis
    using allModels_ordered_set
      [where options = exampleOptions
         and options' = "exampleOptions\<lparr>apiKey := ''another-key'', extraHeaders := Some ''X-A: 1''\<rparr>"]
    by simp
qed

section \<open>The order of the steps and the handle of a proxy start\<close>

lemma set_tryListen:
  "set (fst (tryListen w attempts)) \<subseteq> {Listen, CloseServer, SetTimeout 100}"
proof (induction w attempts rule: tryListen.induct)
  case (1 w attempts)
  show ?case
  proof (cases "listenOutcome w attempts")
    case (Listening addr)
    then show ?thesis
      by (simp add: tryListen.simps [of w attempts] after_def ioReturn_def ioThrow_def
            split: address.splits)
  next
    case (ListenError err)
    show ?thesis
    proof (cases "attempts + 1 > 5")
      case True
      with ListenError show ?thesis
        by (simp add: tryListen.simps [of w attempts] after_def ioThrow_def)
    next
      case False
      with ListenError "1.IH" [OF ListenError False] show ?thesis
        by (simp add: tryListen.simps [of w attempts] after_def)
    qed
  qed
qed

lemma stage_getAvailablePort:
  "e \<in> set (fst (getAvailablePort w)) \<Longrightarrow> stageOf e = Synthesis"
  using set_tryListen [of w 0] by (auto simp: getAvailablePort_def)

lemma stage_waitForProxy:
  "e \<in> set (fst (waitForProxy w port)) \<Longrightarrow> stageOf e = ReadinessPoll"
proof -
  assume "e \<in> set (fst (waitForProxy w port))"
  moreover have "set (fst (waitForProxy w port)) \<subseteq> {Fetch (healthUrl port), Delay 200}"
    using set_pollEvents [of "healthUrl port"]
    by (auto simp: waitForProxy_closed split: option.splits)
  ultimately show ?thesis by auto
qed

lemma proxyArgs_not_installArgs: "proxyArgs path port \<noteq> installArgs"
  by (simp add: proxyArgs_def installArgs_def)

lemma startOpenRouterProxy_success:
  assumes "environ ''CLAUDE_CODE_OPENROUTER_DISABLE_PROXY'' \<noteq> Some ''1''"
    and "getAvailablePort w = (pa, Inr port)"
    and "mkdtempOutcome w = Inr dir"
    and "writeFileOutcome w = Inr ()"
    and "installOutcome w = ChildExit (Some 0)"
    and "waitForProxy w port = (polls, Inr ())"
  shows "startOpenRouterProxy environ options w =
    (pa @ [Mkdtemp (pathJoin (tmpdir w) ''litellm-openrouter-''), configWritten options w dir,
           Spawn ''python3'' installArgs None [], proxySpawned options dir port] @ polls,
     Inr \<lparr>baseUrl = ''http://127.0.0.1:'' @ toStringNat port @ ''/anthropic'',
          masterKey = ''sk-litellm-proxy-'' @ sliceFrom (randomBase36 w) 2,
          stop = [Kill ''SIGTERM'']\<rparr>)"
  using assms
  by (simp add: startOpenRouterProxy_def Let_def ioBind_def perform_def after_def ioReturn_def
        installProxyDependency_def configWritten_def proxySpawned_def)

lemma startOpenRouterProxy_Inr:
  assumes "snd (startOpenRouterProxy environ options w) = Inr h"
  shows "\<exists>pa port dir polls.
    environ ''CLAUDE_CODE_OPENROUTER_DISABLE_PROXY'' \<noteq> Some ''1'' \<and>
    getAvailablePort w = (pa, Inr port) \<and> mkdtempOutcome w = Inr dir \<and>
    writeFileOutcome w = Inr () \<and> installOutcome w = ChildExit (Some 0) \<and>
    waitForProxy w port = (polls, Inr ())"
proof -
  obtain pa r where g: "getAvailablePort w = (pa, r)" by (cases "getAvailablePort w")
  from assms have en: "environ ''CLAUDE_CODE_OPENROUTER_DISABLE_PROXY'' \<noteq> Some ''1''"
    by (auto simp: startOpenRouterProxy_def Let_def ioThrow_def)
  from assms en g obtain port where r: "r = Inr port"
    by (cases r) (auto simp: startOpenRouterProxy_def Let_def ioBind_def)
  from assms en g r obtain dir where d: "mkdtempOutcome w = Inr dir"
    by (cases "mkdtempOutcome w") (auto simp: startOpenRouterProxy_def Let_def ioBind_def perform_def after_def)
  from assms en g r d have wf: "writeFileOutcome w = Inr ()"
    by (cases "writeFileOutcome w") (auto simp: startOpenRouterProxy_def Let_def ioBind_def perform_def after_def)
  from assms en g r d wf have inst: "installOutcome w = ChildExit (Some 0)"
    by (cases "installOutcome w")
       (auto simp: startOpenRouterProxy_def Let_def ioBind_def perform_def after_def installProxyDependency_def
             split: if_splits)
  obtain polls r2 where p: "waitForProxy w port = (polls, r2)" by (cases "waitForProxy w port")
  from assms en g r d wf inst p have "r2 = Inr ()"
    by (cases r2)
       (auto simp: startOpenRouterProxy_def Let_def ioBind_def perform_def after_def installProxyDependency_def)
  with en g r d wf inst p show ?thesis by blast
qed


lemma sorted_same_stage:
  "\<forall>e\<in>set xs. stageOf e = st \<Longrightarrow> sorted (map (\<lambda>e. codeOrder (stageOf e)) xs)"
  by (induction xs) simp_all

lemma sorted_stages:
  "sorted (map (\<lambda>e. codeOrder (stageOf e)) (fst (startOpenRouterProxy environ options w)))"
proof -
  obtain pa r where g: "getAvailablePort w = (pa, r)" by (cases "getAvailablePort w")
  have pa: "\<forall>e\<in>set pa. stageOf e = Synthesis"
    using stage_getAvailablePort [of _ w] g by simp
  note spa = sorted_same_stage [OF pa]
  have polls: "\<forall>e\<in>set (fst (waitForProxy w port)). stageOf e = ReadinessPoll" for port
    using stage_waitForProxy [of _ w port] by simp
  note spolls = sorted_same_stage [OF polls]
  show ?thesis
  proof (cases r)
    case (Inl err)
    with g spa show ?thesis
      by (simp add: startOpenRouterProxy_def Let_def ioBind_def ioThrow_def)
  next
    case (Inr port)
    with g pa spa polls [of port] spolls [of port] show ?thesis
      by (auto simp: startOpenRouterProxy_def Let_def ioBind_def perform_def after_def ioReturn_def
            ioThrow_def installProxyDependency_def sorted_append proxyArgs_not_installArgs
          split: sum.splits installOutcome.splits)
  qed
qed

lemma readyWorld_port: "getAvailablePort readyWorld = ([Listen, CloseServer], Inr 40213)"
  by (simp add: getAvailablePort_def tryListen.simps readyWorld_def
        unhealthyWorld_def after_def ioReturn_def)

lemma readyWorld_wait:
  "waitForProxy readyWorld port = ([Fetch (healthUrl port)], Inr ())"
  by (simp add: waitForProxy_def waitLoop.simps readyWorld_def
        unhealthyWorld_def maxAttempts_def responseOk_def perform_def healthUrl_def)

lemma readyWorld_run:
  "startOpenRouterProxy Map.empty options readyWorld =
     ([Listen, CloseServer, Mkdtemp ''/tmp/litellm-openrouter-'',
       configWritten options readyWorld ''/tmp/litellm-openrouter-AbCdEf'',
       Spawn ''python3'' installArgs None [],
       proxySpawned options ''/tmp/litellm-openrouter-AbCdEf'' 40213,
       Fetch (healthUrl 40213)],
      Inr \<lparr>baseUrl = ''http://127.0.0.1:40213/anthropic'',
           masterKey = ''sk-litellm-proxy-i'',
           stop = [Kill ''SIGTERM'']\<rparr>)"
proof -
  have "startOpenRouterProxy Map.empty options readyWorld =
    ([Listen, CloseServer] @
       [Mkdtemp (pathJoin (tmpdir readyWorld) ''litellm-openrouter-''),
        configWritten options readyWorld ''/tmp/litellm-openrouter-AbCdEf'',
        Spawn ''python3'' installArgs None [],
        proxySpawned options ''/tmp/litellm-openrouter-AbCdEf'' 40213] @ [Fetch (healthUrl 40213)],
     Inr \<lparr>baseUrl = ''http://127.0.0.1:'' @ toStringNat 40213 @ ''/anthropic'',
          masterKey = ''sk-litellm-proxy-'' @ sliceFrom (randomBase36 readyWorld) 2,
          stop = [Kill ''SIGTERM'']\<rparr>)"
    by (rule startOpenRouterProxy_success)
       (simp_all add: readyWorld_port readyWorld_wait, simp_all add: readyWorld_def unhealthyWorld_def)
  then show ?thesis
    by (simp add: readyWorld_def unhealthyWorld_def pathJoin_def toStringNat.simps digitChar_def
          sliceFrom_def slice_def)
qed

text \<open>
  C1 (as amended). In proxied mode \<open>startOpenRouterProxy\<close> runs its steps in the order:
  synthesis of the configuration, write of the configuration file, installation of the
  dependency, spawn of the proxy, readiness polling; this holds of every run, also of one
  that fails on the way. A run that returns a handle has done each of the write, the
  installation and the spawn once, the file that was written holds the synthesized
  configuration, and the installation came after the write.
\<close>

theorem startOpenRouterProxy_step_order:
  "sorted (map (\<lambda>e. codeOrder (stageOf e)) (fst (startOpenRouterProxy environ options w)))
   \<and> (snd (startOpenRouterProxy environ options w) = Inr h \<longrightarrow>
        (\<exists>pa dir port polls.
           fst (startOpenRouterProxy environ options w) =
             pa @ [Mkdtemp (pathJoin (tmpdir w) ''litellm-openrouter-''),
                   WriteFile (pathJoin dir ''config.yaml'') (configYaml options (masterKey h)),
                   Spawn ''python3'' installArgs None [],
                   proxySpawned options dir port] @ polls
           \<and> (\<forall>e\<in>set pa. stageOf e = Synthesis)
           \<and> polls \<noteq> [] \<and> (\<forall>e\<in>set polls. stageOf e = ReadinessPoll)))"
proof (intro conjI impI)
  show "sorted (map (\<lambda>e. codeOrder (stageOf e)) (fst (startOpenRouterProxy environ options w)))"
    by (rule sorted_stages)
next
  assume ok: "snd (startOpenRouterProxy environ options w) = Inr h"
  from startOpenRouterProxy_Inr [OF ok] obtain pa port dir polls where
    c: "environ ''CLAUDE_CODE_OPENROUTER_DISABLE_PROXY'' \<noteq> Some ''1''"
       "getAvailablePort w = (pa, Inr port)" "mkdtempOutcome w = Inr dir"
       "writeFileOutcome w = Inr ()" "installOutcome w = ChildExit (Some 0)"
       "waitForProxy w port = (polls, Inr ())"
    by blast
  note run = startOpenRouterProxy_success
    [where environ = environ and w = w and options = options, OF c]
  from ok run have h: "masterKey h = ''sk-litellm-proxy-'' @ sliceFrom (randomBase36 w) 2"
    by auto
  have pa: "\<forall>e\<in>set pa. stageOf e = Synthesis"
    using stage_getAvailablePort [of _ w] c(2) by simp
  have polls: "\<forall>e\<in>set polls. stageOf e = ReadinessPoll"
    using stage_waitForProxy [of _ w port] c(6) by simp
  have "polls \<noteq> []"
    using c(6) by (auto simp: waitForProxy_closed pollEvents_def timeoutError_def split: option.splits)
  with run h pa polls show "\<exists>pa dir port polls.
           fst (startOpenRouterProxy environ options w) =
             pa @ [Mkdtemp (pathJoin (tmpdir w) ''litellm-openrouter-''),
                   WriteFile (pathJoin dir ''config.yaml'') (configYaml options (masterKey h)),
                   Spawn ''python3'' installArgs None [],
                   proxySpawned options dir port] @ polls
           \<and> (\<forall>e\<in>set pa. stageOf e = Synthesis)
           \<and> polls \<noteq> [] \<and> (\<forall>e\<in>set polls. stageOf e = ReadinessPoll)"
    unfolding configWritten_def by (metis fst_conv)
qed

theorem startOpenRouterProxy_step_order_witness:
  "snd (startOpenRouterProxy Map.empty exampleOptions readyWorld) =
      Inr \<lparr>baseUrl = ''http://127.0.0.1:40213/anthropic'',
           masterKey = ''sk-litellm-proxy-i'',
           stop = [Kill ''SIGTERM'']\<rparr>
   \<and> map stageOf (fst (startOpenRouterProxy Map.empty exampleOptions readyWorld)) =
       [Synthesis, Synthesis, Synthesis, ConfigWrite, DependencyInstall, ProxySpawn, ReadinessPoll]
   \<and> sorted (map (\<lambda>e. codeOrder (stageOf e))
        (fst (startOpenRouterProxy Map.empty exampleOptions readyWorld)))"
  using startOpenRouterProxy_step_order [of Map.empty exampleOptions readyWorld]
  by (simp add: readyWorld_run configWritten_def proxySpawned_def proxyArgs_not_installArgs)

text \<open>
  C1 as stated fails: in the run below the configuration file is written before the
  installation of the dependency starts.
\<close>

theorem install_after_config_write_counterexample:
  "map stageOf (fst (startOpenRouterProxy Map.empty exampleOptions readyWorld)) =
     [Synthesis, Synthesis, Synthesis, ConfigWrite, DependencyInstall, ProxySpawn, ReadinessPoll]
   \<and> \<not> sorted (map (\<lambda>e. claimedOrder (stageOf e))
          (fst (startOpenRouterProxy Map.empty exampleOptions readyWorld)))"
  by (simp add: readyWorld_run configWritten_def proxySpawned_def proxyArgs_not_installArgs)

text \<open>
  C6 (as amended). When a proxy start returns a handle, its base URL ends with
  \<open>/anthropic\<close>, and its master key is \<open>sk-litellm-proxy-\<close> followed by the digits of the
  draw: not empty, with that prefix, and the same whatever the options (so also whatever
  the upstream key) are. It differs from the upstream key whenever the upstream key does
  not start with \<open>sk-litellm-proxy-\<close>.
\<close>

theorem startOpenRouterProxy_handle:
  "snd (startOpenRouterProxy environ options w) = Inr h \<longrightarrow>
     suffix ''/anthropic'' (baseUrl h)
     \<and> masterKey h = masterKeyPrefix @ sliceFrom (randomBase36 w) 2
     \<and> masterKey h \<noteq> []
     \<and> (snd (startOpenRouterProxy environ options' w) = Inr h' \<longrightarrow> masterKey h' = masterKey h)
     \<and> (\<not> prefix masterKeyPrefix (apiKey options) \<longrightarrow> masterKey h \<noteq> apiKey options)"
proof
  assume ok: "snd (startOpenRouterProxy environ options w) = Inr h"
  from startOpenRouterProxy_Inr [OF ok] obtain pa port dir polls where
    c: "environ ''CLAUDE_CODE_OPENROUTER_DISABLE_PROXY'' \<noteq> Some ''1''"
       "getAvailablePort w = (pa, Inr port)" "mkdtempOutcome w = Inr dir"
       "writeFileOutcome w = Inr ()" "installOutcome w = ChildExit (Some 0)"
       "waitForProxy w port = (polls, Inr ())"
    by blast
  from ok startOpenRouterProxy_success [where environ = environ and w = w and options = options, OF c]
  have h: "h = \<lparr>baseUrl = ''http://127.0.0.1:'' @ toStringNat port @ ''/anthropic'',
                masterKey = ''sk-litellm-proxy-'' @ sliceFrom (randomBase36 w) 2,
                stop = [Kill ''SIGTERM'']\<rparr>"
    by simp
  have url: "suffix ''/anthropic'' (baseUrl h)"
    unfolding h by (simp add: suffix_def)
  have key: "masterKey h = masterKeyPrefix @ sliceFrom (randomBase36 w) 2"
    unfolding h by (simp add: masterKeyPrefix_def)
  have other: "masterKey h' = masterKey h"
    if ok': "snd (startOpenRouterProxy environ options' w) = Inr h'"
  proof -
    from startOpenRouterProxy_Inr [OF ok'] obtain pa' port' dir' polls' where
      c': "environ ''CLAUDE_CODE_OPENROUTER_DISABLE_PROXY'' \<noteq> Some ''1''"
       "getAvailablePort w = (pa', Inr port')" "mkdtempOutcome w = Inr dir'"
       "writeFileOutcome w = Inr ()" "installOutcome w = ChildExit (Some 0)"
       "waitForProxy w port' = (polls', Inr ())"
      by blast
    from ok' startOpenRouterProxy_success
      [where environ = environ and w = w and options = options', OF c']
    show ?thesis unfolding h by auto
  qed
  have distinct: "masterKey h \<noteq> apiKey options" if "\<not> prefix masterKeyPrefix (apiKey options)"
    using that key by (metis prefixI)
  from url key other distinct
  show "suffix ''/anthropic'' (baseUrl h)
     \<and> masterKey h = masterKeyPrefix @ sliceFrom (randomBase36 w) 2
     \<and> masterKey h \<noteq> []
     \<and> (snd (startOpenRouterProxy environ options' w) = Inr h' \<longrightarrow> masterKey h' = masterKey h)
     \<and> (\<not> prefix masterKeyPrefix (apiKey options) \<longrightarrow> masterKey h \<noteq> apiKey options)"
    by (simp add: masterKeyPrefix_def)
qed

theorem startOpenRouterProxy_handle_witness:
  "snd (startOpenRouterProxy Map.empty exampleOptions readyWorld) =
      Inr \<lparr>baseUrl = ''http://127.0.0.1:40213/anthropic'',
           masterKey = ''sk-litellm-proxy-i'',
           stop = [Kill ''SIGTERM'']\<rparr>
   \<and> snd (startOpenRouterProxy Map.empty collidingOptions readyWorld) =
      Inr \<lparr>baseUrl = ''http://127.0.0.1:40213/anthropic'',
           masterKey = ''sk-litellm-proxy-i'',
           stop = [Kill ''SIGTERM'']\<rparr>
   \<and> \<not> prefix masterKeyPrefix (apiKey exampleOptions)
   \<and> suffix ''/anthropic'' ''http://127.0.0.1:40213/anthropic''
   \<and> ''sk-litellm-proxy-i'' \<noteq> apiKey exampleOptions"
  using startOpenRouterProxy_handle
    [where environ = Map.empty and options = exampleOptions and w = readyWorld
       and options' = collidingOptions
       and h = "\<lparr>baseUrl = ''http://127.0.0.1:40213/anthropic'',
                  masterKey = ''sk-litellm-proxy-i'', stop = [Kill ''SIGTERM'']\<rparr>"
       and h' = "\<lparr>baseUrl = ''http://127.0.0.1:40213/anthropic'',
                  masterKey = ''sk-litellm-proxy-i'', stop = [Kill ''SIGTERM'']\<rparr>"]
  by (simp add: readyWorld_run masterKeyPrefix_def exampleOptions_def)

text \<open>
  C6 as stated fails: the code never compares the two keys, and with the upstream key
  \<open>sk-litellm-proxy-i\<close> and the draw \<open>0.i\<close> the master key is the upstream key.
\<close>

theorem masterKey_equals_upstream_key_counterexample:
  "snd (startOpenRouterProxy Map.empty collidingOptions readyWorld) =
      Inr \<lparr>baseUrl = ''http://127.0.0.1:40213/anthropic'',
           masterKey = ''sk-litellm-proxy-i'',
           stop = [Kill ''SIGTERM'']\<rparr>
   \<and> apiKey collidingOptions = ''sk-litellm-proxy-i''
   \<and> randomBase36 readyWorld = ''0.i''"
proof -
  have "randomBase36 readyWorld = ''0.i''"
    by (simp add: readyWorld_def unhealthyWorld_def)
  moreover have "apiKey collidingOptions = ''sk-litellm-proxy-i''"
    by (simp add: collidingOptions_def)
  ultimately show ?thesis
    by (simp add: readyWorld_run)
qed

section \<open>Header maps\<close>

lemma keys_mapSet:
  "map fst (mapSet k v m) = (if k \<in> set (map fst m) then map fst m else map fst m @ [k])"
  by (simp add: mapSet_def update_keys)

lemma map_of_mapSet: "map_of (mapSet k v m) = (map_of m)(k \<mapsto> v)"
  by (simp add: mapSet_def update_conv')

lemma distinct_mapSet: "distinct (map fst m) \<Longrightarrow> distinct (map fst (mapSet k v m))"
  by (simp add: mapSet_def distinct_update)

lemma set_mapSet: "set (mapSet k v m) \<subseteq> insert (k, v) (set m)"
  unfolding mapSet_def by (induction m) auto

lemma keyedByName_mapSet:
  "keyedByName m \<Longrightarrow> keyedByName (mapSet (toLowerCase nm) \<lparr>hname = nm, hvalue = v\<rparr> m)"
  using set_mapSet [of "toLowerCase nm" "\<lparr>hname = nm, hvalue = v\<rparr>" m]
  by (auto simp: keyedByName_def list_all_iff)

lemma prefix_keys_mapSet: "prefix (map fst m) (map fst (mapSet k v m))"
  by (simp add: keys_mapSet)

text \<open>Each step of the two loops of the orchestrator's parser sets one header or none.\<close>

lemma lineHeader_cases:
  "lineHeader m line = m \<or> (\<exists>nm v. lineHeader m line = mapSet (toLowerCase nm) \<lparr>hname = nm, hvalue = v\<rparr> m)"
  by (auto simp: lineHeader_def Let_def)

lemma jsonHeader_cases:
  "jsonHeader m p = m \<or> (\<exists>nm v. jsonHeader m p = mapSet (toLowerCase nm) \<lparr>hname = nm, hvalue = v\<rparr> m)"
  by (auto simp: jsonHeader_def split: json.splits)

lemma wellFormed_foldl:
  assumes step: "\<And>m x. f m x = m \<or> (\<exists>nm v. f m x = mapSet (toLowerCase nm) \<lparr>hname = nm, hvalue = v\<rparr> m)"
  shows "distinct (map fst m) \<and> keyedByName m \<Longrightarrow>
         distinct (map fst (foldl f m xs)) \<and> keyedByName (foldl f m xs)"
proof (induction xs arbitrary: m)
  case Nil
  then show ?case by simp
next
  case (Cons x xs)
  from step [of m x] Cons.prems have "distinct (map fst (f m x)) \<and> keyedByName (f m x)"
    by (auto simp: distinct_mapSet keyedByName_mapSet)
  from Cons.IH [OF this] show ?case by simp
qed

lemma wellFormed_parseHeaderLines:
  "distinct (map fst (parseHeaderLines raw)) \<and> keyedByName (parseHeaderLines raw)"
proof -
  have empty: "distinct (map fst ([] :: headerMap)) \<and> keyedByName []"
    by (simp add: keyedByName_def)
  have lines: "distinct (map fst (foldl lineHeader [] ls)) \<and> keyedByName (foldl lineHeader [] ls)" for ls
    using wellFormed_foldl [of lineHeader "[]" ls, OF lineHeader_cases empty] .
  have entries: "distinct (map fst (foldl jsonHeader [] es)) \<and> keyedByName (foldl jsonHeader [] es)" for es
    using wellFormed_foldl [of jsonHeader "[]" es, OF jsonHeader_cases empty] .
  show ?thesis
    using empty lines entries
    by (simp add: parseHeaderLines_def parseLines_def Let_def split: option.splits)
qed

lemma caseInsensitive_distinct:
  "distinct (map fst m) \<Longrightarrow> keyedByName m \<Longrightarrow>
   distinct (map (\<lambda>p. toLowerCase (hname (snd p))) m)"
proof -
  assume d: "distinct (map fst m)" and k: "keyedByName m"
  from k have "map (\<lambda>p. toLowerCase (hname (snd p))) m = map fst m"
    by (auto simp: keyedByName_def list_all_iff)
  with d show ?thesis by (simp only:)
qed

text \<open>The supervisor's parser: every step sets one property or none.\<close>

lemma distinct_objSet: "distinct (map fst obj) \<Longrightarrow> distinct (map fst (objSet k v obj))"
  by (simp add: objSet_def createDataProperty_def distinct_update)

lemma distinct_parseHeaderLines_proxy: "distinct (map fst (parseHeaderLines_proxy raw))"
proof -
  have lines: "distinct (map fst obj) \<Longrightarrow> distinct (map fst (foldl lineHeader_proxy obj ls))" for obj ls
    by (induction ls arbitrary: obj) (auto simp: lineHeader_proxy_def Let_def distinct_objSet)
  have entries: "distinct (map fst obj) \<Longrightarrow> distinct (map fst (foldl jsonHeader_proxy obj es))" for obj es
    by (induction es arbitrary: obj) (auto simp: jsonHeader_proxy_def distinct_objSet split: json.splits)
  show ?thesis
    using lines [of "[]"] entries [of "[]"]
    by (simp add: parseHeaderLines_proxy_def Let_def split: option.splits)
qed

lemma map_of_foldl_mapSet:
  "map_of (foldl (\<lambda>headers p. mapSet (fst p) (snd p) headers) m xs) = map_of m ++ map_of (rev xs)"
proof (induction xs arbitrary: m)
  case Nil
  show ?case by simp
next
  case (Cons x xs)
  have one: "map_of (mapSet (fst x) (snd x) m) = map_of m ++ map_of [x]"
    by (cases x) (simp add: map_of_mapSet)
  have "map_of (foldl (\<lambda>headers p. mapSet (fst p) (snd p) headers) m (x # xs)) =
          map_of (mapSet (fst x) (snd x) m) ++ map_of (rev xs)"
    using Cons [of "mapSet (fst x) (snd x) m"] by simp
  also have "\<dots> = map_of m ++ (map_of [x] ++ map_of (rev xs))"
    unfolding one by simp
  also have "map_of [x] ++ map_of (rev xs) = map_of (rev (x # xs))"
    by (simp only: rev.simps map_of_append)
  finally show ?case .
qed

lemma map_of_rev_distinct:
  assumes "distinct (map fst xs)"
  shows "map_of (rev xs) = map_of xs"
proof -
  have "distinct (map fst (rev xs))"
    using assms by (simp add: rev_map [symmetric])
  from map_of_inject_set [OF this assms] show ?thesis by simp
qed

lemma prefix_keys_foldl_mapSet:
  "prefix (map fst m) (map fst (foldl (\<lambda>headers p. mapSet (fst p) (snd p) headers) m xs))"
proof (induction xs arbitrary: m)
  case Nil
  show ?case by simp
next
  case (Cons x xs)
  have "prefix (map fst m) (map fst (mapSet (fst x) (snd x) m))"
    by (rule prefix_keys_mapSet)
  with Cons [of "mapSet (fst x) (snd x) m"] show ?case
    by (auto intro: prefix_order.trans)
qed

lemma map_of_setHeaderIfGiven:
  "map_of (setHeaderIfGiven m nm x) = map_of m ++ givenHeader nm x"
  by (simp add: setHeaderIfGiven_def givenHeader_def setHeader_def map_of_mapSet split: option.splits)

lemma prefix_keys_setHeaderIfGiven: "prefix (map fst m) (map fst (setHeaderIfGiven m nm x))"
  by (simp add: setHeaderIfGiven_def setHeader_def prefix_keys_mapSet split: option.splits)

lemma lower_Authorization: "toLowerCase ''Authorization'' = ''authorization''"
  by (simp add: toLowerCase_def lowerChar_def upperChars_def lowerChars_def)

lemma lower_Referer: "toLowerCase ''HTTP-Referer'' = ''http-referer''"
  by (simp add: toLowerCase_def lowerChar_def upperChars_def lowerChars_def)

lemma lower_Title: "toLowerCase ''X-Title'' = ''x-title''"
  by (simp add: toLowerCase_def lowerChar_def upperChars_def lowerChars_def)

lemma map_of_directHeaders:
  "map_of (directHeaders environ k) =
     (map_of (customExisting environ))(''authorization'' \<mapsto> bearer k)
       ++ givenHeader ''HTTP-Referer'' (environ ''OPENROUTER_SITE_URL'')
       ++ givenHeader ''X-Title'' (environ ''OPENROUTER_APP_TITLE'')
       ++ map_of (extraDirectives environ)"
proof -
  have "distinct (map fst (extraDirectives environ))"
    by (simp add: extraDirectives_def wellFormed_parseHeaderLines)
  then have "map_of (rev (extraDirectives environ)) = map_of (extraDirectives environ)"
    by (rule map_of_rev_distinct)
  then show ?thesis
    by (simp add: directHeaders_def map_of_foldl_mapSet map_of_setHeaderIfGiven setHeader_def
          map_of_mapSet lower_Authorization bearer_def customExisting_def extraDirectives_def)
qed

lemma givenHeader_other:
  "toLowerCase nm \<noteq> k \<Longrightarrow> givenHeader nm x k = None"
  by (simp add: givenHeader_def split: option.splits)

lemma prefix_keys_directHeaders:
  "prefix (map fst (setHeader (customExisting environ) ''Authorization'' (''Bearer '' @ k)))
     (map fst (directHeaders environ k))"
  unfolding directHeaders_def customExisting_def
  by (blast intro: prefix_order.trans prefix_keys_setHeaderIfGiven prefix_keys_foldl_mapSet)

lemma lineHeader_writes:
  "lineHeader m line = foldl (\<lambda>headers p. mapSet (fst p) (snd p) headers) m (lineHeader [] line)"
  by (simp add: lineHeader_def Let_def mapSet_def)

lemma jsonHeader_writes:
  "jsonHeader m p = foldl (\<lambda>headers p. mapSet (fst p) (snd p) headers) m (jsonHeader [] p)"
  by (simp add: jsonHeader_def mapSet_def split: json.splits)

lemma lineHeader_proxy_writes:
  "lineHeader_proxy obj line =
     foldl (\<lambda>headers p. mapSet (fst p) (snd p) headers) obj (lineHeader_proxy [] line)"
  by (simp add: lineHeader_proxy_def Let_def mapSet_def objSet_def createDataProperty_def)

lemma jsonHeader_proxy_writes:
  "jsonHeader_proxy obj p =
     foldl (\<lambda>headers p. mapSet (fst p) (snd p) headers) obj (jsonHeader_proxy [] p)"
  by (simp add: jsonHeader_proxy_def mapSet_def objSet_def createDataProperty_def split: json.splits)

lemma foldl_writes:
  assumes step: "\<And>m x. f m x = foldl (\<lambda>headers p. mapSet (fst p) (snd p) headers) m (f [] x)"
  shows "foldl f m xs = foldl (\<lambda>headers p. mapSet (fst p) (snd p) headers) m (concat (map (f []) xs))"
proof (induction xs arbitrary: m)
  case Nil
  show ?case by simp
next
  case (Cons x xs)
  have "foldl f m (x # xs) = foldl f (f m x) xs" by simp
  also have "\<dots> = foldl (\<lambda>headers p. mapSet (fst p) (snd p) headers) (f m x) (concat (map (f []) xs))"
    by (rule Cons)
  also have "f m x = foldl (\<lambda>headers p. mapSet (fst p) (snd p) headers) m (f [] x)"
    by (rule step)
  finally show ?case by simp
qed

lemma last_write_wins:
  assumes step: "\<And>m x. f m x = foldl (\<lambda>headers p. mapSet (fst p) (snd p) headers) m (f [] x)"
  shows "map_of (foldl f [] xs) = map_of (rev (concat (map (f []) xs)))"
  using foldl_writes [of f "[]" xs, OF step] by (simp add: map_of_foldl_mapSet)

lemmas string_eval =
  trim_def isWhiteSpace_def startsWith_def endsWith_def suffix_to_prefix slice_def sliceFrom_def
  toLowerCase_def lowerChar_def upperChars_def lowerChars_def Let_def

lemmas json_eval =
  tryJsonEntries_def JSON_parse_def tokenize.simps lexString.simps isJsonWhiteSpace_def isDigit_def
  isNumberChar_def isJsonNumber_def unescape_def indexed_def toStringNat.simps digitChar_def
  ownEntries_def isArrayIndex_def decimalValue_def positionIn_def createDataProperty_def

section \<open>The header merge of the direct mode\<close>

text \<open>
  C5. In direct mode (the feature enabled, a non-empty upstream key, the proxy disabled)
  the call performs no event and writes the serialized merge of the headers. The merge
  is, as a map with later entries winning: the existing custom headers, then
  \<open>Authorization: Bearer <key>\<close>, then the referer and the title when given, then the
  extra headers. So the injected \<open>Authorization\<close> replaces one of the existing headers,
  and one of the extra headers replaces the injected one. The existing headers keep their
  places at the front; when none of them is an \<open>Authorization\<close>, the injected one follows
  them directly; and an existing header that nothing later sets keeps its entry.
\<close>

theorem direct_mode_header_merge:
  assumes "\<not> proxyInitialized st"
    and "processEnv st ''CLAUDE_CODE_USE_OPENROUTER'' = Some ''1''"
    and "processEnv st ''OPENROUTER_API_KEY'' = Some k"
    and "k \<noteq> []"
    and "processEnv st ''CLAUDE_CODE_OPENROUTER_DISABLE_PROXY'' = Some ''1''"
  shows
    "(\<exists>st'. configureOpenRouterEnvironment st w = ([], Inr st') \<and> proxyInitialized st' \<and>
            processEnv st' ''ANTHROPIC_CUSTOM_HEADERS'' =
              Some (serializeHeaders (directHeaders (processEnv st) k)))
     \<and> map_of (directHeaders (processEnv st) k) =
          (map_of (customExisting (processEnv st)))(''authorization'' \<mapsto> bearer k)
            ++ givenHeader ''HTTP-Referer'' (processEnv st ''OPENROUTER_SITE_URL'')
            ++ givenHeader ''X-Title'' (processEnv st ''OPENROUTER_APP_TITLE'')
            ++ map_of (extraDirectives (processEnv st))
     \<and> map_of (directHeaders (processEnv st) k) ''authorization'' =
          Some (case map_of (extraDirectives (processEnv st)) ''authorization'' of
                  None \<Rightarrow> bearer k
                | Some e \<Rightarrow> e)
     \<and> prefix (map fst (customExisting (processEnv st))) (map fst (directHeaders (processEnv st) k))
     \<and> (''authorization'' \<notin> set (map fst (customExisting (processEnv st))) \<longrightarrow>
          prefix (map fst (customExisting (processEnv st)) @ [''authorization''])
            (map fst (directHeaders (processEnv st) k)))
     \<and> (map_of (customExisting (processEnv st)) nm = Some e \<and> nm \<noteq> ''authorization'' \<and>
        givenHeader ''HTTP-Referer'' (processEnv st ''OPENROUTER_SITE_URL'') nm = None \<and>
        givenHeader ''X-Title'' (processEnv st ''OPENROUTER_APP_TITLE'') nm = None \<and>
        map_of (extraDirectives (processEnv st)) nm = None \<longrightarrow>
          map_of (directHeaders (processEnv st) k) nm = Some e)"
proof -
  let ?env = "processEnv st"
  let ?H = "directHeaders ?env k"
  have run: "\<exists>st'. configureOpenRouterEnvironment st w = ([], Inr st') \<and> proxyInitialized st' \<and>
            processEnv st' ''ANTHROPIC_CUSTOM_HEADERS'' = Some (serializeHeaders ?H)"
    using assms by (simp add: configureOpenRouterEnvironment_def Let_def ioReturn_def)
  note merged = map_of_directHeaders [of ?env k]
  have auth: "map_of ?H ''authorization'' =
      Some (case map_of (extraDirectives ?env) ''authorization'' of None \<Rightarrow> bearer k | Some e \<Rightarrow> e)"
    unfolding merged
    by (simp add: map_add_def givenHeader_other lower_Referer lower_Title split: option.splits)
  have keys: "prefix (map fst (setHeader (customExisting ?env) ''Authorization'' (''Bearer '' @ k)))
                (map fst ?H)"
    by (rule prefix_keys_directHeaders)
  have front: "prefix (map fst (customExisting ?env)) (map fst ?H)"
    using keys prefix_keys_mapSet [of "customExisting ?env"]
    unfolding setHeader_def by (blast intro: prefix_order.trans)
  have appended: "prefix (map fst (customExisting ?env) @ [''authorization'']) (map fst ?H)"
    if "''authorization'' \<notin> set (map fst (customExisting ?env))"
    using keys that by (simp add: setHeader_def keys_mapSet lower_Authorization)
  have kept: "map_of ?H nm = Some e"
    if "map_of (customExisting ?env) nm = Some e \<and> nm \<noteq> ''authorization'' \<and>
        givenHeader ''HTTP-Referer'' (?env ''OPENROUTER_SITE_URL'') nm = None \<and>
        givenHeader ''X-Title'' (?env ''OPENROUTER_APP_TITLE'') nm = None \<and>
        map_of (extraDirectives ?env) nm = None"
    unfolding merged using that by (simp add: map_add_def)
  from run merged auth front appended kept show ?thesis by blast
qed

theorem direct_mode_header_merge_witness:
  "(case snd (configureOpenRouterEnvironment scenarioC readyWorld) of
      Inl err \<Rightarrow> None
    | Inr st' \<Rightarrow> processEnv st' ''ANTHROPIC_CUSTOM_HEADERS'')
     = Some (''X-Test: Value'' @ [LF] @ ''Authorization: Bearer abc123'')
   \<and> map fst (directHeaders (processEnv scenarioC) ''abc123'') = [''x-test'', ''authorization'']
   \<and> map_of (directHeaders (processEnv scenarioC) ''abc123'') ''x-test'' =
       Some \<lparr>hname = ''X-Test'', hvalue = ''Value''\<rparr>
   \<and> (case snd (configureOpenRouterEnvironment scenarioD readyWorld) of
      Inl err \<Rightarrow> None
    | Inr st' \<Rightarrow> processEnv st' ''ANTHROPIC_CUSTOM_HEADERS'')
     = Some (''AUTHORIZATION: Bearer override'' @ [LF] @ ''X-Test: Value'')"
proof -
  have custom: "customExisting (processEnv scenarioC) =
      [(''x-test'', \<lparr>hname = ''X-Test'', hvalue = ''Value''\<rparr>)]"
    by (simp add: customExisting_def scenarioC_def parseHeaderLines_def parseLines_def
          lineHeader_def mapSet_def string_eval)
  have extra: "extraDirectives (processEnv scenarioC) = []"
    by (simp add: extraDirectives_def scenarioC_def parseHeaderLines_def)
  have headers: "directHeaders (processEnv scenarioC) ''abc123'' =
      [(''x-test'', \<lparr>hname = ''X-Test'', hvalue = ''Value''\<rparr>),
       (''authorization'', \<lparr>hname = ''Authorization'', hvalue = ''Bearer abc123''\<rparr>)]"
    using custom extra
    by (simp add: directHeaders_def customExisting_def extraDirectives_def setHeader_def
          setHeaderIfGiven_def lower_Authorization mapSet_def scenarioC_def)
  have customD: "customExisting (processEnv scenarioD) =
      [(''authorization'', \<lparr>hname = ''authorization'', hvalue = ''Basic old''\<rparr>),
       (''x-test'', \<lparr>hname = ''X-Test'', hvalue = ''Value''\<rparr>)]"
    by (simp add: customExisting_def scenarioD_def parseHeaderLines_def parseLines_def
          lineHeader_def mapSet_def string_eval)
  have extraD: "extraDirectives (processEnv scenarioD) =
      [(''authorization'', \<lparr>hname = ''AUTHORIZATION'', hvalue = ''Bearer override''\<rparr>)]"
    by (simp add: extraDirectives_def scenarioD_def parseHeaderLines_def parseLines_def
          lineHeader_def mapSet_def string_eval)
  have headersD: "directHeaders (processEnv scenarioD) ''abc123'' =
      [(''authorization'', \<lparr>hname = ''AUTHORIZATION'', hvalue = ''Bearer override''\<rparr>),
       (''x-test'', \<lparr>hname = ''X-Test'', hvalue = ''Value''\<rparr>)]"
    using customD extraD
    by (simp add: directHeaders_def customExisting_def extraDirectives_def setHeader_def
          setHeaderIfGiven_def lower_Authorization mapSet_def scenarioD_def)
  have c: "\<exists>st'. configureOpenRouterEnvironment scenarioC readyWorld = ([], Inr st') \<and>
          proxyInitialized st' \<and>
          processEnv st' ''ANTHROPIC_CUSTOM_HEADERS'' =
            Some (serializeHeaders (directHeaders (processEnv scenarioC) ''abc123''))"
    using direct_mode_header_merge [of scenarioC "''abc123''" readyWorld]
    by (simp add: scenarioC_def)
  have d: "\<exists>st'. configureOpenRouterEnvironment scenarioD readyWorld = ([], Inr st') \<and>
          proxyInitialized st' \<and>
          processEnv st' ''ANTHROPIC_CUSTOM_HEADERS'' =
            Some (serializeHeaders (directHeaders (processEnv scenarioD) ''abc123''))"
    using direct_mode_header_merge [of scenarioD "''abc123''" readyWorld]
    by (simp add: scenarioD_def)
  from c d show ?thesis
    by (auto simp: headers headersD serializeHeaders_def)
qed

section \<open>JSON texts in braces\<close>

lemma bottomIsObject_Nil: "\<not> bottomIsObject []"
  by (simp add: bottomIsObject_def)

lemma bottomIsObject_Cons:
  "bottomIsObject (f # st) = (if st = [] then isObjectFrame f else bottomIsObject st)"
  by (simp add: bottomIsObject_def)

lemma deliver_object:
  "bottomIsObject st \<Longrightarrow> deliver v st = Some c \<Longrightarrow> objectOutcome c"
  by (cases "(v, st)" rule: deliver.cases)
     (auto simp: bottomIsObject_Nil bottomIsObject_Cons split: if_splits)

lemma bottomIsObject_push: "bottomIsObject st \<Longrightarrow> bottomIsObject (f # st)"
  by (simp add: bottomIsObject_def)

lemma startValue_object:
  "bottomIsObject st \<Longrightarrow> startValue t st = Some c \<Longrightarrow> objectOutcome c"
  by (cases "(t, st)" rule: startValue.cases)
     (auto simp: bottomIsObject_push dest: deliver_object [rotated])

lemma pushKey_object:
  "bottomIsObject st \<Longrightarrow> pushKey t st = Some c \<Longrightarrow> objectOutcome c"
  by (cases "(t, st)" rule: pushKey.cases)
     (auto simp: bottomIsObject_Cons bottomIsObject_Nil split: if_splits)

lemma close_frame:
  "bottomIsObject (f # st) \<Longrightarrow> deliver v st = Some c \<Longrightarrow>
   st = [] \<longrightarrow> (\<exists>ms. v = JObject ms) \<Longrightarrow> objectOutcome c"
proof (cases st)
  case Nil
  assume "deliver v st = Some c" "st = [] \<longrightarrow> (\<exists>ms. v = JObject ms)"
  with Nil show ?thesis by auto
next
  case (Cons g st')
  assume "bottomIsObject (f # st)" "deliver v st = Some c"
  with Cons show ?thesis
    by (auto simp: bottomIsObject_Cons dest: deliver_object [rotated])
qed

lemma parseStep_object:
  "bottomIsObject st \<Longrightarrow> parseStep e st t = Some c \<Longrightarrow> objectOutcome c"
proof (induction e st t rule: parseStep.induct)
  case (2 vs st)
  then show ?case
    by (auto intro!: close_frame [of "ArrayFrame vs" st] simp: bottomIsObject_Cons)
next
  case (4 ms st)
  then show ?case
    by (auto intro!: close_frame [of "ObjectFrame ms" st "JObject ms"])
next
  case (10 vs st)
  then show ?case
    by (auto intro!: close_frame [of "ArrayFrame vs" st] simp: bottomIsObject_Cons)
next
  case (12 ms st)
  then show ?case
    by (auto intro!: close_frame [of "ObjectFrame ms" st "JObject ms"])
qed (auto simp: bottomIsObject_Nil simp del: startValue.simps pushKey.simps deliver.simps
       dest: startValue_object [rotated] pushKey_object [rotated])

lemma parseTokens_object:
  "objectOutcome (e, st) \<Longrightarrow> parseTokens e st ts = Some v \<Longrightarrow> \<exists>ms. v = JObject ms"
proof (induction ts arbitrary: e st)
  case Nil
  then show ?case
    by (cases e) (auto split: json.splits)
next
  case (Cons t ts)
  from Cons.prems(2) obtain e' st' where
    step: "parseStep e st t = Some (e', st')" and rest: "parseTokens e' st' ts = Some v"
    by (auto split: option.splits)
  have "\<not> (\<exists>x. e = Finished x)" using step by auto
  with Cons.prems(1) have "bottomIsObject st" by (cases e) auto
  from parseStep_object [OF this step] rest show ?case
    by (rule Cons.IH)
qed

lemma JSON_parse_braced:
  assumes "startsWith s ''{''" and "JSON_parse s = Some v"
  shows "\<exists>ms. v = JObject ms"
proof -
  from assms(1) obtain cs where s: "s = CHR ''{'' # cs"
    by (cases s) (auto simp: startsWith_def)
  from assms(2) obtain ts where ts: "tokenize cs = Some ts"
    and p: "parseTokens Value [] (TLBrace # ts) = Some v"
    by (auto simp: JSON_parse_def s tokenize.simps isJsonWhiteSpace_def split: option.splits)
  from p have "parseTokens KeyOrClose [ObjectFrame []] ts = Some v" by simp
  moreover have "objectOutcome (KeyOrClose, [ObjectFrame []])"
    by (simp add: bottomIsObject_def)
  ultimately show ?thesis by (rule parseTokens_object [rotated])
qed

lemma tryJsonEntries_braced:
  "startsWith s ''{'' \<Longrightarrow> tryJsonEntries s = None \<longleftrightarrow> JSON_parse s = None"
  using JSON_parse_braced [of s]
  by (auto simp: tryJsonEntries_def split: option.splits)

section \<open>The two header parsers\<close>

text \<open>
  C3 (as amended). The orchestrator's parser returns a map with at most one entry for a
  name whatever its casing, each entry under its lower-cased name. The supervisor's
  parser returns an object with at most one entry for a name as it is written. In both,
  of the lines (or JSON properties) that set one name the last one gives the value. The
  lines \<open>X-Title: a\<close> and \<open>x-title: b\<close> give the orchestrator one entry, with the value
  \<open>b\<close>.
\<close>

theorem header_maps_one_entry_per_name:
  "distinct (map (\<lambda>p. toLowerCase (hname (snd p))) (parseHeaderLines raw))
   \<and> keyedByName (parseHeaderLines raw)
   \<and> distinct (map fst (parseHeaderLines_proxy raw))
   \<and> map_of (foldl lineHeader [] ls) = map_of (rev (concat (map (lineHeader []) ls)))
   \<and> map_of (foldl jsonHeader [] es) = map_of (rev (concat (map (jsonHeader []) es)))
   \<and> map_of (foldl lineHeader_proxy [] ls) = map_of (rev (concat (map (lineHeader_proxy []) ls)))
   \<and> map_of (foldl jsonHeader_proxy [] es) = map_of (rev (concat (map (jsonHeader_proxy []) es)))
   \<and> parseHeaderLines (Some twoCasings) = [(''x-title'', \<lparr>hname = ''x-title'', hvalue = ''b''\<rparr>)]"
proof -
  note wf = wellFormed_parseHeaderLines [of raw]
  from wf have "distinct (map (\<lambda>p. toLowerCase (hname (snd p))) (parseHeaderLines raw))"
    by (simp add: caseInsensitive_distinct)
  moreover have "parseHeaderLines (Some twoCasings) =
      [(''x-title'', \<lparr>hname = ''x-title'', hvalue = ''b''\<rparr>)]"
    by (simp add: twoCasings_def parseHeaderLines_def parseLines_def lineHeader_def mapSet_def
          string_eval)
  ultimately show ?thesis
    using wf distinct_parseHeaderLines_proxy [of raw]
      last_write_wins [of lineHeader ls, OF lineHeader_writes]
      last_write_wins [of jsonHeader es, OF jsonHeader_writes]
      last_write_wins [of lineHeader_proxy ls, OF lineHeader_proxy_writes]
      last_write_wins [of jsonHeader_proxy es, OF jsonHeader_proxy_writes]
    by simp
qed

text \<open>
  C3 as stated fails for the supervisor: its keys are the names as written, and the two
  lines give it two entries whose names differ in case only.
\<close>

theorem supervisor_headers_case_sensitive_counterexample:
  "parseHeaderLines_proxy (Some twoCasings) = [(''X-Title'', ''a''), (''x-title'', ''b'')]
   \<and> \<not> distinct (map (\<lambda>p. toLowerCase (fst p)) (parseHeaderLines_proxy (Some twoCasings)))"
proof -
  have "tryJsonEntries twoCasings = None"
    by (simp add: twoCasings_def json_eval)
  then have "parseHeaderLines_proxy (Some twoCasings) = [(''X-Title'', ''a''), (''x-title'', ''b'')]"
    by (simp add: twoCasings_def parseHeaderLines_proxy_def lineHeader_proxy_def objSet_def
          createDataProperty_def string_eval)
  then show ?thesis
    by (simp add: toLowerCase_def lowerChar_def upperChars_def lowerChars_def)
qed

lemma parseLines_Nil: "parseLines [] = []"
  by (simp add: parseLines_def trim_def)

text \<open>
  C4 (as amended). The orchestrator's parser hands the trimmed input to \<open>JSON.parse\<close>
  exactly when it starts with \<open>{\<close> and ends with \<open>}\<close>; the supervisor's parser hands
  every non-empty trimmed input to it. In both, when \<open>JSON.parse\<close> (or \<open>Object.entries\<close>
  after it) throws, the input is parsed line by line, and otherwise the properties of the
  parsed value give the headers; on an input that starts with \<open>{\<close> only \<open>JSON.parse\<close> can
  throw. Both are total: the result is a header map, which has no
  error value.
\<close>

theorem parseHeaderLines_json_attempt:
  "(\<not> (startsWith (trim r) ''{'' \<and> endsWith (trim r) ''}'')
      \<longrightarrow> parseHeaderLines (Some r) = parseLines (trim r))
   \<and> (startsWith (trim r) ''{'' \<and> endsWith (trim r) ''}'' \<and> tryJsonEntries (trim r) = None
      \<longrightarrow> parseHeaderLines (Some r) = parseLines (trim r))
   \<and> (startsWith (trim r) ''{'' \<and> endsWith (trim r) ''}'' \<and> tryJsonEntries (trim r) = Some es
      \<longrightarrow> parseHeaderLines (Some r) = foldl jsonHeader [] es)
   \<and> (tryJsonEntries (trim r) = None
      \<longrightarrow> parseHeaderLines_proxy (Some r) = foldl lineHeader_proxy [] (splitLines (trim r)))
   \<and> (trim r \<noteq> [] \<and> tryJsonEntries (trim r) = Some es
      \<longrightarrow> parseHeaderLines_proxy (Some r) = foldl jsonHeader_proxy [] es)
   \<and> (startsWith (trim r) ''{''
      \<longrightarrow> (tryJsonEntries (trim r) = None \<longleftrightarrow> JSON_parse (trim r) = None))
   \<and> parseHeaderLines None = [] \<and> parseHeaderLines_proxy None = []"
proof -
  have trimNil: "trim [] = []" by (simp add: trim_def)
  have noLine: "foldl lineHeader_proxy [] (splitLines []) = []"
    by (simp add: lineHeader_proxy_def trimNil)
  have a: "parseHeaderLines (Some r) = parseLines (trim r)"
    if "\<not> (startsWith (trim r) ''{'' \<and> endsWith (trim r) ''}'')"
    using that by (auto simp: parseHeaderLines_def Let_def parseLines_Nil trimNil)
  have b: "parseHeaderLines (Some r) = parseLines (trim r)"
    if "startsWith (trim r) ''{'' \<and> endsWith (trim r) ''}'' \<and> tryJsonEntries (trim r) = None"
    using that by (auto simp: parseHeaderLines_def Let_def parseLines_Nil trimNil)
  have c: "parseHeaderLines (Some r) = foldl jsonHeader [] es"
    if "startsWith (trim r) ''{'' \<and> endsWith (trim r) ''}'' \<and> tryJsonEntries (trim r) = Some es"
    using that by (auto simp: parseHeaderLines_def Let_def startsWith_def trimNil)
  have d: "parseHeaderLines_proxy (Some r) = foldl lineHeader_proxy [] (splitLines (trim r))"
    if "tryJsonEntries (trim r) = None"
    using that noLine by (auto simp: parseHeaderLines_proxy_def Let_def trimNil)
  have e: "parseHeaderLines_proxy (Some r) = foldl jsonHeader_proxy [] es"
    if "trim r \<noteq> [] \<and> tryJsonEntries (trim r) = Some es"
    using that by (auto simp: parseHeaderLines_proxy_def Let_def trimNil)
  from a b c d e tryJsonEntries_braced [of "trim r"] show ?thesis
    by (simp add: parseHeaderLines_def parseHeaderLines_proxy_def)
qed

theorem parseHeaderLines_json_attempt_witness:
  "parseHeaderLines (Some twoCasings) = parseLines (trim twoCasings)
   \<and> parseHeaderLines (Some bracedInput) = parseLines (trim bracedInput)
   \<and> parseHeaderLines (Some jsonObjectInput) = foldl jsonHeader [] [(''X-Test'', JString ''Value'')]
   \<and> parseHeaderLines_proxy (Some twoCasings) = foldl lineHeader_proxy [] (splitLines (trim twoCasings))
   \<and> parseHeaderLines_proxy (Some jsonArrayInput) = foldl jsonHeader_proxy [] [(''0'', JString ''a: b'')]
   \<and> JSON_parse bracedInput = None"
proof -
  have t1: "trim twoCasings = twoCasings" by (simp add: twoCasings_def string_eval)
  have t2: "trim bracedInput = bracedInput" by (simp add: bracedInput_def string_eval)
  have t3: "trim jsonObjectInput = jsonObjectInput" by (simp add: jsonObjectInput_def string_eval)
  have t4: "trim jsonArrayInput = jsonArrayInput" by (simp add: jsonArrayInput_def string_eval)
  have g1: "\<not> startsWith twoCasings ''{''" by (simp add: twoCasings_def startsWith_def)
  have g2: "startsWith bracedInput ''{'' \<and> endsWith bracedInput ''}''"
    by (simp add: bracedInput_def string_eval)
  have g3: "startsWith jsonObjectInput ''{'' \<and> endsWith jsonObjectInput ''}''"
    by (simp add: jsonObjectInput_def string_eval)
  have j1: "tryJsonEntries twoCasings = None" by (simp add: twoCasings_def json_eval)
  have j2: "tryJsonEntries bracedInput = None" by (simp add: bracedInput_def json_eval)
  have j3: "tryJsonEntries jsonObjectInput = Some [(''X-Test'', JString ''Value'')]"
    by (simp add: jsonObjectInput_def json_eval)
  have j4: "tryJsonEntries jsonArrayInput = Some [(''0'', JString ''a: b'')]"
    by (simp add: jsonArrayInput_def json_eval)
  have n4: "jsonArrayInput \<noteq> []" by (simp add: jsonArrayInput_def)
  show ?thesis
    using parseHeaderLines_json_attempt [of twoCasings]
      parseHeaderLines_json_attempt [of bracedInput]
      parseHeaderLines_json_attempt [of jsonObjectInput "[(''X-Test'', JString ''Value'')]"]
      parseHeaderLines_json_attempt [of jsonArrayInput "[(''0'', JString ''a: b'')]"]
    by (simp add: t1 t2 t3 t4 g1 g2 g3 j1 j2 j3 j4 n4)
qed

text \<open>
  C4 as stated fails for the supervisor: the input \<open>["a: b"]\<close> has no braces, yet it is
  parsed as JSON (the array gives the header \<open>0\<close>), not line by line.
\<close>

theorem json_attempted_without_braces_counterexample:
  "\<not> startsWith (trim jsonArrayInput) ''{''
   \<and> parseHeaderLines_proxy (Some jsonArrayInput) = [(''0'', ''a: b'')]
   \<and> foldl lineHeader_proxy [] (splitLines (trim jsonArrayInput)) =
       [(''['' @ [DQUOTE] @ ''a'', ''b'' @ [DQUOTE] @ '']'')]"
proof -
  have "tryJsonEntries jsonArrayInput = Some [(''0'', JString ''a: b'')]"
    by (simp add: jsonArrayInput_def json_eval)
  then have "parseHeaderLines_proxy (Some jsonArrayInput) = [(''0'', ''a: b'')]"
    by (simp add: jsonArrayInput_def parseHeaderLines_proxy_def jsonHeader_proxy_def objSet_def
          createDataProperty_def string_eval)
  moreover have "foldl lineHeader_proxy [] (splitLines (trim jsonArrayInput)) =
       [(''['' @ [DQUOTE] @ ''a'', ''b'' @ [DQUOTE] @ '']'')]"
    by (simp add: jsonArrayInput_def lineHeader_proxy_def objSet_def createDataProperty_def
          string_eval)
  moreover have "\<not> startsWith (trim jsonArrayInput) ''{''"
    by (simp add: jsonArrayInput_def string_eval)
  ultimately show ?thesis by simp
qed

section \<open>Header values in the configuration file\<close>

lemma replaceAll_same: "replaceAll c [c] s = s"
  by (induction s) (simp_all add: replaceAll_def)

text \<open>
  C2. The replacement \<open>value.replace(/"/g, '\"')\<close> puts a double quote where a double
  quote was, so a header value is rendered between double quotes as it is. For the value
  \<open>a"b\<close> of the header \<open>X-A\<close> the configuration of every model ends with the line
  \<open>X-A: "a"b"\<close>: the quote is not escaped.
\<close>

theorem header_value_quote_not_escaped:
  "replaceAll DQUOTE [DQUOTE] v = v
   \<and> headerLine (k, v) = ''        '' @ k @ '': '' @ [DQUOTE] @ v @ [DQUOTE]
   \<and> map headerLine (ownEntries (headerEntries quotedHeaderOptions)) =
       [''        HTTP-Referer: '' @ [DQUOTE] @ ''https://github.com/anthropics'' @ [DQUOTE],
        ''        X-Title: '' @ [DQUOTE] @ ''Claude Code OpenRouter'' @ [DQUOTE],
        ''        X-A: '' @ [DQUOTE] @ ''a'' @ [DQUOTE] @ ''b'' @ [DQUOTE]]
   \<and> suffix ([LF] @ ''        X-A: '' @ [DQUOTE] @ ''a'' @ [DQUOTE] @ ''b'' @ [DQUOTE])
        (modelYaml quotedHeaderOptions model)"
proof -
  have line: "headerLine (k, v) = ''        '' @ k @ '': '' @ [DQUOTE] @ v @ [DQUOTE]" for k v
    by (simp add: headerLine_def replaceAll_same)
  have "tryJsonEntries (''X-A: a'' @ [DQUOTE] @ ''b'') = None"
    by (simp add: json_eval)
  then have "parseHeaderLines_proxy (Some (''X-A: a'' @ [DQUOTE] @ ''b'')) =
      [(''X-A'', ''a'' @ [DQUOTE] @ ''b'')]"
    by (simp add: parseHeaderLines_proxy_def lineHeader_proxy_def objSet_def
          createDataProperty_def string_eval)
  then have parsed: "parseHeaderLines_proxy (extraHeaders quotedHeaderOptions) =
      [(''X-A'', ''a'' @ [DQUOTE] @ ''b'')]"
    by (simp add: quotedHeaderOptions_def)
  have given: "siteUrl quotedHeaderOptions = None" "appTitle quotedHeaderOptions = None"
    by (simp_all add: quotedHeaderOptions_def exampleOptions_def)
  have idx: "\<not> isArrayIndex ''X-A''" "\<not> isArrayIndex ''HTTP-Referer''" "\<not> isArrayIndex ''X-Title''"
    by (simp_all add: isArrayIndex_def isDigit_def)
  have entries: "ownEntries (headerEntries quotedHeaderOptions) =
      [(''HTTP-Referer'', ''https://github.com/anthropics''),
       (''X-Title'', ''Claude Code OpenRouter''),
       (''X-A'', ''a'' @ [DQUOTE] @ ''b'')]"
    by (simp add: headerEntries_def parsed given spreadInto_def ownEntries_def idx
          createDataProperty_def trimmedOr_def)
  have lines: "map headerLine (ownEntries (headerEntries quotedHeaderOptions)) =
       [''        HTTP-Referer: '' @ [DQUOTE] @ ''https://github.com/anthropics'' @ [DQUOTE],
        ''        X-Title: '' @ [DQUOTE] @ ''Claude Code OpenRouter'' @ [DQUOTE],
        ''        X-A: '' @ [DQUOTE] @ ''a'' @ [DQUOTE] @ ''b'' @ [DQUOTE]]"
    unfolding entries by (simp add: line)
  have "suffix ([LF] @ ''        X-A: '' @ [DQUOTE] @ ''a'' @ [DQUOTE] @ ''b'' @ [DQUOTE])
        (modelYaml quotedHeaderOptions model)"
    unfolding modelYaml_def Let_def lines
    by (simp add: entries suffix_def)
  with line lines show ?thesis
    by (simp add: replaceAll_same)
qed

end
